theory Spec2Isabelle
  imports Main
begin

section \<open>JavaScript values used by the add-in\<close>

text \<open>
  Strings are lists of code units below 256. A value of type \<open>string | null | undefined\<close>
  is a \<open>string option\<close>; JavaScript's truthiness of such a value (neither null nor
  undefined nor the empty string) is \<open>truthy\<close>, and \<open>x || ""\<close> is \<open>or_empty\<close>.
\<close>

definition truthy :: "string option \<Rightarrow> bool" where
  "truthy v = (case v of None \<Rightarrow> False | Some s \<Rightarrow> s \<noteq> [])"

definition or_empty :: "string option \<Rightarrow> string" where
  "or_empty v = (case v of None \<Rightarrow> [] | Some s \<Rightarrow> s)"

definition or_null :: "string option \<Rightarrow> string option" where
  \<comment> \<open>\<open>x || null\<close>\<close>
  "or_null v = (if truthy v then v else None)"

definition or_undefined :: "string \<Rightarrow> string option" where
  \<comment> \<open>\<open>s || undefined\<close> for a string \<open>s\<close>\<close>
  "or_undefined s = (if s = [] then None else Some s)"

definition is_ws :: "char \<Rightarrow> bool" where
  \<comment> \<open>the white space of \<open>String.prototype.trim\<close> among the code units below 256:
      TAB, LF, VT, FF, CR, SPACE, NBSP\<close>
  "is_ws c = (of_char c \<in> {9, 10, 11, 12, 13, 32, 160 :: nat})"

definition trim :: "string \<Rightarrow> string" where
  "trim s = rev (dropWhile is_ws (rev (dropWhile is_ws s)))"

fun string_of_nat :: "nat \<Rightarrow> string" where
  \<comment> \<open>a number inside a template literal: its decimal digits\<close>
  "string_of_nat n =
     (if n < 10 then [''0123456789'' ! n]
      else string_of_nat (n div 10) @ [''0123456789'' ! (n mod 10)])"

declare string_of_nat.simps [simp del]

text \<open>
  A value of type \<open>any\<close> that comes out of a JSON body. Of a number the code can
  observe only whether it is truthy (not zero) and the text that it reads as in a string;
  these two stand for the number.
\<close>

datatype jsval =
    JNull
  | JBool bool
  | JNumber bool string  \<comment> \<open>whether it is not zero; its text\<close>
  | JString string
  | JArray "jsval list"
  | JObject "(string \<times> jsval) list"

fun js_truthy :: "jsval \<Rightarrow> bool" where
  "js_truthy JNull = False"
| "js_truthy (JBool b) = b"
| "js_truthy (JNumber nonzero _) = nonzero"
| "js_truthy (JString s) = (s \<noteq> [])"
| "js_truthy (JArray _) = True"
| "js_truthy (JObject _) = True"

fun join_comma :: "string list \<Rightarrow> string" where
  "join_comma [] = []"
| "join_comma [x] = x"
| "join_comma (x # y # r) = x @ '','' @ join_comma (y # r)"

fun js_to_string :: "jsval \<Rightarrow> string option" where
  \<comment> \<open>the conversion of a value to a string, as \<open>new Error(v)\<close> does it for its
      message. An array is its elements joined by commas, null elements as empty strings.
      An object is \<open>[object Object]\<close>, unless it has a property \<open>toString\<close> of its own:
      that is not a function, and the conversion throws a TypeError (\<open>None\<close>).\<close>
  "js_to_string JNull = Some ''null''"
| "js_to_string (JBool b) = Some (if b then ''true'' else ''false'')"
| "js_to_string (JNumber _ text) = Some text"
| "js_to_string (JString s) = Some s"
| "js_to_string (JArray vs) =
     map_option join_comma
       (those (map (\<lambda>v. if v = JNull then Some [] else js_to_string v) vs))"
| "js_to_string (JObject fields) =
     (if ''toString'' \<in> fst ` set fields then None else Some ''[object Object]'')"

section \<open>Asynchronous code that may throw\<close>

text \<open>
  An \<open>async\<close> function run to completion is a function of the state it works on that
  returns the state it leaves and either the value it resolves with (\<open>Inr\<close>) or the
  message of the \<open>Error\<close> it throws (\<open>Inl\<close>). \<open>await\<close> is \<open>io_bind\<close>: what follows
  runs only after the awaited call has returned, and not at all when it threw.
\<close>

type_synonym ('s, 'a) io = "'s \<Rightarrow> (string + 'a) \<times> 's"

definition io_return :: "'a \<Rightarrow> ('s, 'a) io" where
  "io_return x = (\<lambda>s. (Inr x, s))"

definition io_bind :: "('s, 'a) io \<Rightarrow> ('a \<Rightarrow> ('s, 'b) io) \<Rightarrow> ('s, 'b) io" where
  "io_bind m f = (\<lambda>s. case m s of (Inl e, s') \<Rightarrow> (Inl e, s') | (Inr x, s') \<Rightarrow> f x s')"

definition io_ignore :: "('s, unit) io \<Rightarrow> ('s, unit) io" where
  \<comment> \<open>\<open>try { m } catch { /* ignore */ }\<close>\<close>
  "io_ignore m = (\<lambda>s. case m s of (_, s') \<Rightarrow> (Inr (), s'))"

definition io_catch :: "('s, 'a) io \<Rightarrow> (string \<Rightarrow> ('s, 'a) io) \<Rightarrow> ('s, 'a) io" where
  \<comment> \<open>\<open>try { m } catch (e) { handler(e.message) }\<close>\<close>
  "io_catch m handler = (\<lambda>s. case m s of (Inl e, s') \<Rightarrow> handler e s' | (Inr x, s') \<Rightarrow> (Inr x, s'))"

section \<open>The host document capability\<close>

datatype InsertLocation = Replace | After | Before

record SearchOptions =
  matchCase :: bool
  matchWholeWord :: bool

datatype range =
    SelectionRange
  | Found nat nat  \<comment> \<open>a search match: offset in the selection text, length\<close>

text \<open>
  The calls the add-in makes on the Word object model. The mutations of the document are
  the insertion or replacement of text, the highlight and the comment.
\<close>

datatype hcall =
    SetTrackRevisions bool
  | GetSelection
  | Load range string
  | InsertText range "string option" InsertLocation
  | Search range string SearchOptions
  | LoadItems
  | SetHighlightColor range string
  | InsertComment range string
  | Sync


text \<open>
  The document the add-in runs against: the text of the current selection, which reads
  and searches see, and the journal of the calls the host has accepted, oldest first.
  What a mutation does to the text is Word's business and is not interpreted: the
  journal says which mutations were made, on which range and with which arguments.
\<close>

record document =
  sel_text :: string
  journal :: "hcall list"

text \<open>
  Word itself is not part of the repository. Its side of every call is a parameter:
  given the journal so far and the next call, the host either accepts the call or throws
  an error with a message. A rejected call leaves the document as it was.
\<close>

type_synonym host = "hcall list \<Rightarrow> hcall \<Rightarrow> string option"

definition accept_all :: host where
  "accept_all = (\<lambda>_ _. None)"

definition host_call :: "host \<Rightarrow> hcall \<Rightarrow> (document, unit) io" where
  "host_call h c = (\<lambda>d. case h (journal d) c of
       Some m \<Rightarrow> (Inl m, d)
     | None \<Rightarrow> (Inr (), d\<lparr>journal := journal d @ [c]\<rparr>))"

definition to_lower :: "char \<Rightarrow> char" where
  \<comment> \<open>the lower-case form of a code unit below 256: the letters A to Z, and the
      capital letters from 192 to 222 (all but the multiplication sign, 215)\<close>
  "to_lower c = (let n = of_char c :: nat in
     if (65 \<le> n \<and> n \<le> 90) \<or> (192 \<le> n \<and> n \<le> 222 \<and> n \<noteq> 215) then char_of (n + 32) else c)"

definition is_word_char :: "char \<Rightarrow> bool" where
  "is_word_char c = (let n = of_char c :: nat in
     (48 \<le> n \<and> n \<le> 57) \<or> (65 \<le> n \<and> n \<le> 90) \<or> (97 \<le> n \<and> n \<le> 122))"

definition range_text :: "document \<Rightarrow> range \<Rightarrow> string" where
  "range_text d r = (case r of
       SelectionRange \<Rightarrow> sel_text d
     | Found i n \<Rightarrow> take n (drop i (sel_text d)))"

definition matches_at :: "SearchOptions \<Rightarrow> string \<Rightarrow> string \<Rightarrow> nat \<Rightarrow> bool" where
  \<comment> \<open>Modelled from the spec: whether the host's search reports a match of the query at an
      offset of the text (the search itself is Word's, not the repository's).\<close>
  "matches_at opts text q i =
     (let seg = take (length q) (drop i text) in
      length seg = length q
      \<and> (if matchCase opts then seg = q else map to_lower seg = map to_lower q)
      \<and> (if matchWholeWord opts
         then (if i = 0 then True else \<not> is_word_char (text ! (i - 1)))
            \<and> (if i + length q < length text then \<not> is_word_char (text ! (i + length q)) else True)
         else True))"

definition host_search :: "SearchOptions \<Rightarrow> string \<Rightarrow> string \<Rightarrow> nat list" where
  \<comment> \<open>Modelled from the spec: the host's substring search within a range (Word's
      \<open>Range.search\<close>), which returns the match ranges in document order: every offset
      of the text at which the query occurs, compared without case unless \<open>matchCase\<close>,
      and bounded by non-word characters when \<open>matchWholeWord\<close>.\<close>
  "host_search opts text q = filter (matches_at opts text q) [0 ..< Suc (length text)]"

definition document_getSelection :: "host \<Rightarrow> (document, range) io" where
  \<comment> \<open>\<open>context.document.getSelection()\<close>\<close>
  "document_getSelection h = io_bind (host_call h GetSelection) (\<lambda>_. io_return SelectionRange)"

definition search :: "host \<Rightarrow> range \<Rightarrow> string \<Rightarrow> SearchOptions \<Rightarrow> (document, range list) io" where
  \<comment> \<open>\<open>range.search(q, opts)\<close>; the offsets of the matches are taken in the selection text\<close>
  "search h r q opts = io_bind (host_call h (Search r q opts)) (\<lambda>_. (\<lambda>d.
     (Inr (map (\<lambda>i. Found ((case r of SelectionRange \<Rightarrow> 0 | Found j _ \<Rightarrow> j) + i) (length q))
            (host_search opts (range_text d r) q)), d)))"

definition read_text :: "range \<Rightarrow> (document, string) io" where
  \<comment> \<open>reading \<open>range.text\<close> after it has been loaded\<close>
  "read_text r = (\<lambda>d. (Inr (range_text d r), d))"

section \<open>The Operation Applier\<close>

record Comment =
  title :: "string option"
  body :: string

datatype Severity = info | warning | risk

record WordOperation =
  type :: string
  new_text :: "string option"
  quote :: "string option"
  severity :: "Severity option"
  highlight :: bool
  comment :: "Comment option"

definition commentText :: "Comment \<Rightarrow> string" where
  \<comment> \<open>\<open>op.comment.title ? `${op.comment.title}: ${op.comment.body}` : op.comment.body\<close>\<close>
  "commentText c = (if truthy (title c) then or_empty (title c) @ '': '' @ body c else body c)"

definition insert_comment :: "host \<Rightarrow> range \<Rightarrow> WordOperation \<Rightarrow> (document, unit) io" where
  \<comment> \<open>\<open>if (op.comment?.body) { r.insertComment(commentText) }\<close>\<close>
  "insert_comment h r op = (case comment op of
       None \<Rightarrow> io_return ()
     | Some c \<Rightarrow> if body c \<noteq> [] then host_call h (InsertComment r (commentText c)) else io_return ())"

definition applyOperationToWord :: "host \<Rightarrow> WordOperation \<Rightarrow> (document, unit) io" where
  "applyOperationToWord h op =
     io_bind (io_ignore (host_call h (SetTrackRevisions True))) (\<lambda>_.
     io_bind (document_getSelection h) (\<lambda>range.
     io_bind
       (if type op = ''replace_selection'' then host_call h (InsertText range (new_text op) Replace)
        else if type op = ''insert_after_selection'' then host_call h (InsertText range (new_text op) After)
        else if type op = ''insert_before_selection'' then host_call h (InsertText range (new_text op) Before)
        else io_return ()) (\<lambda>_.
     if type op = ''comment_on_quote'' then
       (let q = trim (or_empty (quote op)) in
        if q = [] then host_call h Sync
        else
          io_bind (search h range q \<lparr>matchCase = False, matchWholeWord = False\<rparr>) (\<lambda>results.
          io_bind (host_call h LoadItems) (\<lambda>_.
          io_bind (host_call h Sync) (\<lambda>_.
          io_bind
            (case results of
               [] \<Rightarrow> io_return ()
             | found # _ \<Rightarrow>
                 io_bind
                   (if highlight op then io_ignore (host_call h (SetHighlightColor found ''yellow''))
                    else io_return ()) (\<lambda>_.
                 insert_comment h found op)) (\<lambda>_.
          host_call h Sync)))))
     else
       io_bind (insert_comment h range op) (\<lambda>_.
       host_call h Sync))))"

text \<open>
  \<open>applyOperationToWord\<close> above is the callback that the source hands to \<open>Word.run\<close>;
  \<open>Word.run\<close> runs it on the open document and resolves or rejects as the callback does.
\<close>

section \<open>Credential storage\<close>

definition TOKEN_KEY :: string where
  "TOKEN_KEY = ''legal_assistant_access_token''"

text \<open>
  The roaming settings: the values held in memory, which \<open>get\<close>, \<open>set\<close> and
  \<open>remove\<close> work on, and the copy that \<open>saveAsync\<close> persists.
\<close>

record RoamingSettings =
  settings :: "string \<rightharpoonup> string"
  persisted :: "string \<rightharpoonup> string"

text \<open>
  The Office runtime's side: whether reaching \<open>Office.context.roamingSettings\<close> throws,
  and whether \<open>saveAsync\<close> reports a failure.
\<close>

record Office =
  roaming_throws :: "string option"
  save_error :: "string option"

definition saveAsync :: "Office \<Rightarrow> (RoamingSettings, unit) io" where
  "saveAsync off = (\<lambda>r. case save_error off of
       Some m \<Rightarrow> (Inl m, r)
     | None \<Rightarrow> (Inr (), r\<lparr>persisted := settings r\<rparr>))"

definition saveToken :: "Office \<Rightarrow> string \<Rightarrow> (RoamingSettings, unit) io" where
  "saveToken off token = (\<lambda>r. case roaming_throws off of
       Some m \<Rightarrow> (Inl m, r)
     | None \<Rightarrow> saveAsync off (r\<lparr>settings := (settings r)(TOKEN_KEY \<mapsto> token)\<rparr>))"

definition getToken :: "Office \<Rightarrow> RoamingSettings \<Rightarrow> string option" where
  "getToken off r = (case roaming_throws off of
       Some m \<Rightarrow> None
     | None \<Rightarrow> or_null (settings r TOKEN_KEY))"

definition clearToken :: "Office \<Rightarrow> (RoamingSettings, unit) io" where
  "clearToken off = (\<lambda>r. case roaming_throws off of
       Some m \<Rightarrow> (Inl m, r)
     | None \<Rightarrow> saveAsync off (r\<lparr>settings := (settings r)(TOKEN_KEY := None)\<rparr>))"

section \<open>The Suggestion Source client\<close>

definition API_BASE_URL :: string where
  "API_BASE_URL = ''http://localhost:8001''"

text \<open>The bodies that the client serialises with \<open>JSON.stringify\<close>; an undefined field is left out.\<close>

datatype payload =
    ImproveWritingBody string "string option"  \<comment> \<open>\<open>selection_text\<close>, \<open>instructions\<close>\<close>
  | DraftClauseBody string "string option" "string option"
      \<comment> \<open>\<open>clause_request\<close>, \<open>context_text\<close>, \<open>style_instructions\<close>\<close>
  | ProofreadBody string  \<comment> \<open>\<open>selection_text\<close>\<close>

record RequestInit =
  req_method :: "string option"
  req_headers :: "(string \<times> string) list"
  req_body :: "payload option"

record request =
  url :: string
  init :: RequestInit

text \<open>
  What the client reads of a response body: the \<open>detail\<close> of an error, which may be
  any value, and the \<open>operations\<close> of a result, each possibly missing.
\<close>

record json_body =
  detail :: "jsval option"
  operations :: "WordOperation list option"

record response =
  res_status :: nat
  res_json :: "string + json_body"  \<comment> \<open>\<open>Inl m\<close>: \<open>res.json()\<close> throws \<open>m\<close>\<close>

definition res_ok :: "response \<Rightarrow> bool" where
  "res_ok res = (200 \<le> res_status res \<and> res_status res \<le> 299)"

fun set_header :: "string \<Rightarrow> string \<Rightarrow> (string \<times> string) list \<Rightarrow> (string \<times> string) list" where
  "set_header k v [] = [(k, v)]"
| "set_header k v ((k', v') # hs) = (if k' = k then (k, v) # hs else (k', v') # set_header k v hs)"

section \<open>The task pane\<close>

text \<open>
  The status line starts with a sign (a check mark, a cross or a warning sign) or with
  none; the rest is text.
\<close>

datatype sign = NoSign | CheckMark | CrossMark | WarningSign

text \<open>
  What the handlers of the panel work on: the open document, the roaming settings, the
  requests handed to \<open>fetch\<close> so far (oldest first), and the state of the panel's
  \<open>useState\<close> hooks.
\<close>

record world =
  doc :: document
  roaming :: RoamingSettings
  sent :: "request list"
  selection :: string
  insertText :: string
  status :: "sign \<times> string"
  improveInstructions :: string
  clauseRequest :: string
  clauseStyle :: string
  useSelectionAsContext :: bool

text \<open>
  What is outside the add-in: Word, the message that the JavaScript engine gives the
  TypeError for a value that cannot be converted to a string, the Office runtime, and the
  network with the server behind it (\<open>Inl m\<close>: \<open>fetch\<close> itself throws \<open>m\<close>).
\<close>

record env =
  word :: host
  type_error :: string
  office :: Office
  fetch :: "request \<Rightarrow> string + response"

definition Word_run :: "(document, 'a) io \<Rightarrow> (world, 'a) io" where
  "Word_run batch = (\<lambda>w. case batch (doc w) of (r, d) \<Rightarrow> (r, w\<lparr>doc := d\<rparr>))"

definition setStatus :: "sign \<times> string \<Rightarrow> (world, unit) io" where
  "setStatus s = (\<lambda>w. (Inr (), w\<lparr>status := s\<rparr>))"

definition setSelection :: "string \<Rightarrow> (world, unit) io" where
  "setSelection s = (\<lambda>w. (Inr (), w\<lparr>selection := s\<rparr>))"

definition build_request :: "env \<Rightarrow> string \<Rightarrow> RequestInit \<Rightarrow> world \<Rightarrow> request" where
  \<comment> \<open>the arguments of the call of \<open>fetch\<close> in \<open>apiRequest\<close>\<close>
  "build_request e path options w =
     (let token = getToken (office e) (roaming w);
          headers = (if truthy token
                     then set_header ''Authorization'' (''Bearer '' @ or_empty token) (req_headers options)
                     else req_headers options)
      in \<lparr>url = API_BASE_URL @ path, init = options\<lparr>req_headers := headers\<rparr>\<rparr>)"

definition apiRequest :: "env \<Rightarrow> string \<Rightarrow> RequestInit \<Rightarrow> (world, json_body) io" where
  "apiRequest e path options = (\<lambda>w.
     let req = build_request e path options w;
         w' = w\<lparr>sent := sent w @ [req]\<rparr>
     in case fetch e req of
          Inl m \<Rightarrow> (Inl m, w')
        | Inr res \<Rightarrow>
            if \<not> res_ok res then
              (let d = (case res_json res of Inl _ \<Rightarrow> None | Inr j \<Rightarrow> detail j);
                   msg = (case d of
                            None \<Rightarrow> ''Request failed ('' @ string_of_nat (res_status res) @ '')''
                          | Some v \<Rightarrow>
                              if js_truthy v
                              then (case js_to_string v of Some s \<Rightarrow> s | None \<Rightarrow> type_error e)
                              else ''Request failed ('' @ string_of_nat (res_status res) @ '')'')
               in (Inl msg, w'))
            else (case res_json res of Inl m \<Rightarrow> (Inl m, w') | Inr j \<Rightarrow> (Inr j, w')))"

definition improveWriting :: "env \<Rightarrow> string \<Rightarrow> string option \<Rightarrow> (world, json_body) io" where
  "improveWriting e selectionText instructions =
     apiRequest e ''/api/v1/word/improve-writing''
       \<lparr>req_method = Some ''POST'', req_headers = [(''Content-Type'', ''application/json'')],
        req_body = Some (ImproveWritingBody selectionText instructions)\<rparr>"

definition draftClause :: "env \<Rightarrow> string \<Rightarrow> string option \<Rightarrow> string option \<Rightarrow> (world, json_body) io" where
  "draftClause e clause_request context_text style_instructions =
     apiRequest e ''/api/v1/word/draft-clause''
       \<lparr>req_method = Some ''POST'', req_headers = [(''Content-Type'', ''application/json'')],
        req_body = Some (DraftClauseBody clause_request context_text style_instructions)\<rparr>"

definition proofreadSelection :: "env \<Rightarrow> string \<Rightarrow> (world, json_body) io" where
  "proofreadSelection e selectionText =
     apiRequest e ''/api/v1/word/proofread''
       \<lparr>req_method = Some ''POST'', req_headers = [(''Content-Type'', ''application/json'')],
        req_body = Some (ProofreadBody selectionText)\<rparr>"

definition read_selection :: "host \<Rightarrow> (document, string) io" where
  \<comment> \<open>\<open>const range = context.document.getSelection(); range.load("text");
      await context.sync();\<close> and then the read of \<open>range.text\<close>\<close>
  "read_selection h =
     io_bind (document_getSelection h) (\<lambda>range.
     io_bind (host_call h (Load range ''text'')) (\<lambda>_.
     io_bind (host_call h Sync) (\<lambda>_.
     read_text range)))"

definition getSelection :: "env \<Rightarrow> (world, unit) io" where
  "getSelection e =
     io_bind (setStatus (NoSign, ''Reading selection...'')) (\<lambda>_.
     io_catch
       (io_bind (Word_run (read_selection (word e))) (\<lambda>text.
        io_bind (setSelection text) (\<lambda>_.
        setStatus (CheckMark, ''Selection loaded''))))
       (\<lambda>m. setStatus (CrossMark, ''Failed: '' @ m)))"

definition first_operation :: "json_body \<Rightarrow> WordOperation option" where
  \<comment> \<open>\<open>resp.operations?.[0]\<close>\<close>
  "first_operation resp = (case operations resp of
       None \<Rightarrow> None
     | Some [] \<Rightarrow> None
     | Some (op # _) \<Rightarrow> Some op)"

definition runImproveWriting :: "env \<Rightarrow> (world, unit) io" where
  "runImproveWriting e =
     io_bind (setStatus (NoSign, ''Improving writing (calling API)...'')) (\<lambda>_.
     io_catch
       (io_bind (Word_run (read_selection (word e))) (\<lambda>selectedText.
        if trim selectedText = [] then setStatus (WarningSign, ''Please select some text first'')
        else
          io_bind (\<lambda>w. improveWriting e selectedText (or_undefined (improveInstructions w)) w) (\<lambda>resp.
          case first_operation resp of
            None \<Rightarrow> setStatus (CrossMark, ''No operation returned'')
          | Some op \<Rightarrow>
              io_bind (Word_run (applyOperationToWord (word e) op)) (\<lambda>_.
              setStatus (CheckMark, ''Improve writing applied (tracked if enabled)'')))))
       (\<lambda>m. setStatus (CrossMark, ''Improve writing failed: '' @ m)))"

fun apply_operations :: "env \<Rightarrow> WordOperation list \<Rightarrow> (world, unit) io" where
  \<comment> \<open>\<open>for (const op of ops) { await applyOperationToWord(op); }\<close>\<close>
  "apply_operations e [] = io_return ()"
| "apply_operations e (op # ops) =
     io_bind (Word_run (applyOperationToWord (word e) op)) (\<lambda>_. apply_operations e ops)"

definition proofread :: "env \<Rightarrow> (world, unit) io" where
  \<comment> \<open>the \<open>onClick\<close> handler of the button "Proofread + highlight"\<close>
  "proofread e =
     io_bind (setStatus (NoSign, ''Proofreading selection (calling API)...'')) (\<lambda>_.
     io_catch
       (io_bind (Word_run (read_selection (word e))) (\<lambda>selectedText.
        if trim selectedText = [] then setStatus (WarningSign, ''Please select some text first'')
        else
          io_bind (proofreadSelection e selectedText) (\<lambda>resp.
          let ops = (case operations resp of None \<Rightarrow> [] | Some l \<Rightarrow> l) in
          if length ops = 0 then setStatus (CheckMark, ''No issues found'')
          else
            io_bind (apply_operations e ops) (\<lambda>_.
            setStatus (CheckMark, ''Added '' @ string_of_nat (length ops) @ '' comments'')))))
       (\<lambda>m. setStatus (CrossMark, ''Proofread failed: '' @ m)))"

definition draft_clause :: "env \<Rightarrow> (world, unit) io" where
  \<comment> \<open>the \<open>onClick\<close> handler of the button "Draft clause"\<close>
  "draft_clause e =
     io_bind (setStatus (NoSign, ''Drafting clause (calling API)...'')) (\<lambda>_.
     io_catch
       (io_bind
          (\<lambda>w. if useSelectionAsContext w
                then io_bind (Word_run (read_selection (word e))) (\<lambda>text.
                     io_return (or_undefined (trim text))) w
                else io_return None w) (\<lambda>contextText.
        (\<lambda>w.
          if trim (clauseRequest w) = [] then setStatus (WarningSign, ''Enter a clause request first'') w
          else
            io_bind (draftClause e (clauseRequest w) contextText (or_undefined (clauseStyle w))) (\<lambda>resp.
            case first_operation resp of
              None \<Rightarrow> setStatus (CrossMark, ''No operation returned'')
            | Some op \<Rightarrow>
                io_bind (Word_run (applyOperationToWord (word e) op)) (\<lambda>_.
                setStatus (CheckMark, ''Clause inserted (tracked if enabled)''))) w)))
       (\<lambda>m. setStatus (CrossMark, ''Draft clause failed: '' @ m)))"

section \<open>Notions used to state the properties\<close>

text \<open>
  \<open>runs h t P Q m\<close>: started on a document whose selection reads \<open>t\<close>, the host
  program \<open>m\<close> leaves the selection text alone, adds to the journal only calls that
  satisfy \<open>P\<close>, throws only what the host \<open>h\<close> threw, and returns only values that
  satisfy \<open>Q\<close>.
\<close>

definition runs :: "host \<Rightarrow> string \<Rightarrow> (hcall \<Rightarrow> bool) \<Rightarrow> ('a \<Rightarrow> bool) \<Rightarrow> (document, 'a) io \<Rightarrow> bool" where
  "runs h t P Q m = (\<forall>d. sel_text d = t \<longrightarrow>
     sel_text (snd (m d)) = t
     \<and> (\<exists>new. journal (snd (m d)) = journal d @ new \<and> list_all P new)
     \<and> (case fst (m d) of Inl e \<Rightarrow> \<exists>l c. h l c = Some e | Inr x \<Rightarrow> Q x))"

text \<open>
  The call that attaches the comment of an operation to a range: none when the comment
  or its body is missing or empty; the visible text is the title, a colon, a space and the
  body when there is a non-empty title, and the body alone otherwise.
\<close>

definition comment_calls :: "range \<Rightarrow> WordOperation \<Rightarrow> hcall list" where
  "comment_calls r op = (case comment op of
       None \<Rightarrow> []
     | Some c \<Rightarrow>
         if body c = [] then []
         else [InsertComment r (case title c of
                 None \<Rightarrow> body c
               | Some t \<Rightarrow> if t = [] then body c else t @ '': '' @ body c)])"

text \<open>A server's answers with every operation after the first left out.\<close>

definition first_only :: "(request \<Rightarrow> string + response) \<Rightarrow> request \<Rightarrow> string + response" where
  "first_only f req = (case f req of
       Inl m \<Rightarrow> Inl m
     | Inr res \<Rightarrow> Inr (res\<lparr>res_json := (case res_json res of
           Inl m \<Rightarrow> Inl m
         | Inr j \<Rightarrow> Inr (j\<lparr>operations := map_option (take 1) (operations j)\<rparr>))\<rparr>))"

text \<open>
  No operation of a batch fails: each operation, applied to the document that the ones
  before it left, returns without an error.
\<close>

fun all_succeed :: "host \<Rightarrow> WordOperation list \<Rightarrow> document \<Rightarrow> bool" where
  "all_succeed h [] d = True"
| "all_succeed h (op # ops) d = (case applyOperationToWord h op d of
       (Inl _, _) \<Rightarrow> False
     | (Inr _, d') \<Rightarrow> all_succeed h ops d')"

text \<open>Whenever the host program returns without an error, the last call it made is the
  host synchronisation.\<close>

definition ends_with_sync :: "(document, 'a) io \<Rightarrow> bool" where
  "ends_with_sync m = (\<forall>d u d'. m d = (Inr u, d') \<longrightarrow> (\<exists>pre. journal d' = journal d @ pre @ [Sync]))"

section \<open>Examples\<close>

definition c1_doc :: document where
  "c1_doc = \<lparr>sel_text = ''the date'', journal = []\<rparr>"

definition c1_op :: WordOperation where
  "c1_op = \<lparr>type = ''replace_selection'', new_text = None, quote = None,
            severity = None, highlight = False, comment = None\<rparr>"

definition c1_op_after :: WordOperation where
  "c1_op_after = \<lparr>type = ''insert_after_selection'', new_text = None, quote = None,
            severity = Some info, highlight = False,
            comment = Some \<lparr>title = Some ''Note'', body = ''check''\<rparr>\<rparr>"

definition c1_strict_host :: host where
  "c1_strict_host l c = (if c = InsertText SelectionRange None After then Some ''InvalidArgument'' else None)"




definition c6_doc :: document where
  "c6_doc = \<lparr>sel_text = ''The confidentiality and Confidentiality terms'', journal = []\<rparr>"

definition c6_op :: WordOperation where
  "c6_op = \<lparr>type = ''comment_on_quote'', new_text = None, quote = Some ''Confidentiality'',
            severity = None, highlight = True, comment = None\<rparr>"

definition c7_doc :: document where
  "c7_doc = \<lparr>sel_text = ''The Term of this Agreement is 12 months.'', journal = []\<rparr>"

definition c7_op :: WordOperation where
  "c7_op = \<lparr>type = ''comment_on_quote'', new_text = None, quote = Some ''12 months'',
            severity = None, highlight = False,
            comment = Some \<lparr>title = None, body = ''Confirm duration''\<rparr>\<rparr>"

definition c10_op :: WordOperation where
  "c10_op = \<lparr>type = ''delete_selection'', new_text = Some ''x'', quote = Some ''Term'',
            severity = Some risk, highlight = True,
            comment = Some \<lparr>title = Some ''Risk'', body = ''Unbounded liability''\<rparr>\<rparr>"

definition c10_doc :: document where
  "c10_doc = \<lparr>sel_text = ''The Term of this Agreement is 12 months.'', journal = []\<rparr>"

definition c8_office :: Office where
  "c8_office = \<lparr>roaming_throws = None, save_error = None\<rparr>"

definition c8_settings :: RoamingSettings where
  "c8_settings = \<lparr>settings = Map.empty, persisted = Map.empty\<rparr>"











definition c9_office :: Office where
  "c9_office = \<lparr>roaming_throws = None, save_error = None\<rparr>"

definition c9_fetch :: "request \<Rightarrow> string + response" where
  "c9_fetch req = Inr \<lparr>res_status = 200, res_json = Inr \<lparr>detail = None, operations = Some []\<rparr>\<rparr>"

definition c9_env :: env where
  "c9_env = \<lparr>word = accept_all, type_error = ''Cannot convert object to primitive value'', office = c9_office, fetch = c9_fetch\<rparr>"

definition c9_world :: "string \<Rightarrow> world" where
  "c9_world text = \<lparr>doc = \<lparr>sel_text = text, journal = []\<rparr>,
     roaming = \<lparr>settings = Map.empty, persisted = Map.empty\<rparr>,
     sent = [], selection = [], insertText = ''Hello from Legal Assistant AI'', status = (NoSign, []),
     improveInstructions = [], clauseRequest = ''limitation of liability'',
     clauseStyle = ''US English, formal, concise'', useSelectionAsContext = True\<rparr>"

definition c2_op :: "string \<Rightarrow> string \<Rightarrow> WordOperation" where
  "c2_op q b = \<lparr>type = ''comment_on_quote'', new_text = None, quote = Some q,
            severity = Some warning, highlight = False,
            comment = Some \<lparr>title = None, body = b\<rparr>\<rparr>"

definition c2_host :: host where
  "c2_host l c = (if c = InsertComment (Found 3 2) ''two'' then Some ''GeneralException'' else None)"

definition c2_fetch :: "WordOperation list \<Rightarrow> request \<Rightarrow> string + response" where
  "c2_fetch ops req = Inr \<lparr>res_status = 200, res_json = Inr \<lparr>detail = None, operations = Some ops\<rparr>\<rparr>"

definition c2_env :: "WordOperation list \<Rightarrow> env" where
  "c2_env ops = \<lparr>word = c2_host, type_error = ''Cannot convert object to primitive value'', office = \<lparr>roaming_throws = None, save_error = None\<rparr>,
     fetch = c2_fetch ops\<rparr>"

definition c2_world :: world where
  "c2_world = \<lparr>doc = \<lparr>sel_text = ''ab cd ef'', journal = []\<rparr>,
     roaming = \<lparr>settings = Map.empty, persisted = Map.empty\<rparr>,
     sent = [], selection = [], insertText = ''Hello from Legal Assistant AI'', status = (NoSign, []),
     improveInstructions = [], clauseRequest = [],
     clauseStyle = ''US English, formal, concise'', useSelectionAsContext = True\<rparr>"

definition c3_ops :: "WordOperation list" where
  "c3_ops = [
       \<lparr>type = ''replace_selection'', new_text = Some ''one'', quote = None, severity = None,
        highlight = False, comment = None\<rparr>,
       \<lparr>type = ''insert_after_selection'', new_text = Some ''two'', quote = None, severity = None,
        highlight = False, comment = None\<rparr>]"

definition c3_fetch :: "request \<Rightarrow> string + response" where
  "c3_fetch req = Inr \<lparr>res_status = 200, res_json = Inr \<lparr>detail = None, operations = Some c3_ops\<rparr>\<rparr>"

definition c3_env :: env where
  "c3_env = \<lparr>word = accept_all, type_error = ''Cannot convert object to primitive value'', office = \<lparr>roaming_throws = None, save_error = None\<rparr>,
     fetch = c3_fetch\<rparr>"

definition c3_world :: world where
  "c3_world = \<lparr>doc = \<lparr>sel_text = ''ab cd ef'', journal = []\<rparr>,
     roaming = \<lparr>settings = Map.empty, persisted = Map.empty\<rparr>,
     sent = [], selection = [], insertText = ''Hello from Legal Assistant AI'', status = (NoSign, []),
     improveInstructions = ''make more formal'', clauseRequest = [],
     clauseStyle = ''US English, formal, concise'', useSelectionAsContext = True\<rparr>"

definition c3_host :: host where
  "c3_host l c = (if c = SetTrackRevisions True then Some ''NotImplemented'' else None)"

definition c3_env_strict :: env where
  "c3_env_strict = \<lparr>word = c3_host, type_error = ''Cannot convert object to primitive value'', office = \<lparr>roaming_throws = None, save_error = None\<rparr>,
     fetch = c3_fetch\<rparr>"

definition c3_world_draft :: world where
  "c3_world_draft = c3_world\<lparr>clauseRequest := ''confidentiality'', useSelectionAsContext := False\<rparr>"

definition c6_padded_doc :: document where
  "c6_padded_doc = \<lparr>sel_text = ''abcdef'', journal = []\<rparr>"

definition c6_padded_op :: WordOperation where
  "c6_padded_op = \<lparr>type = ''comment_on_quote'', new_text = None, quote = Some '' cd '',
            severity = None, highlight = True,
            comment = Some \<lparr>title = None, body = ''check''\<rparr>\<rparr>"

definition c6_blank_doc :: document where
  "c6_blank_doc = \<lparr>sel_text = ''a b'', journal = []\<rparr>"

definition c6_blank_op :: WordOperation where
  "c6_blank_op = \<lparr>type = ''comment_on_quote'', new_text = None, quote = Some '' '',
            severity = None, highlight = True,
            comment = Some \<lparr>title = None, body = ''check''\<rparr>\<rparr>"

section \<open>Host programs\<close>

lemmas io_defs = io_bind_def io_return_def io_ignore_def io_catch_def

lemma host_call_accept: "host_call accept_all c d = (Inr (), d\<lparr>journal := journal d @ [c]\<rparr>)"
  by (simp add: host_call_def accept_all_def)

lemma io_bind_return: "io_bind (io_return x) f = f x"
  by (simp add: io_bind_def io_return_def)

lemma apply_insert_kind:
  assumes "type op \<in> {''replace_selection'', ''insert_after_selection'', ''insert_before_selection''}"
  shows "applyOperationToWord h op =
     io_bind (io_ignore (host_call h (SetTrackRevisions True))) (\<lambda>_.
     io_bind (document_getSelection h) (\<lambda>range.
     io_bind (host_call h (InsertText range (new_text op)
                (if type op = ''replace_selection'' then Replace
                 else if type op = ''insert_after_selection'' then After else Before))) (\<lambda>_.
     io_bind (insert_comment h range op) (\<lambda>_.
     host_call h Sync))))"
proof -
  from assms consider "type op = ''replace_selection''" | "type op = ''insert_after_selection''"
    | "type op = ''insert_before_selection''" by auto
  then show ?thesis
    by cases (simp_all add: applyOperationToWord_def)
qed

lemma apply_comment_on_quote:
  assumes "type op = ''comment_on_quote''"
  shows "applyOperationToWord h op =
     io_bind (io_ignore (host_call h (SetTrackRevisions True))) (\<lambda>_.
     io_bind (document_getSelection h) (\<lambda>range.
       if trim (or_empty (quote op)) = [] then host_call h Sync
       else
         io_bind (search h range (trim (or_empty (quote op)))
                    \<lparr>matchCase = False, matchWholeWord = False\<rparr>) (\<lambda>results.
         io_bind (host_call h LoadItems) (\<lambda>_.
         io_bind (host_call h Sync) (\<lambda>_.
         io_bind
           (case results of
              [] \<Rightarrow> io_return ()
            | found # _ \<Rightarrow>
                io_bind
                  (if highlight op then io_ignore (host_call h (SetHighlightColor found ''yellow''))
                   else io_return ()) (\<lambda>_.
                insert_comment h found op)) (\<lambda>_.
         host_call h Sync))))))"
  using assms by (simp add: applyOperationToWord_def io_bind_return Let_def)

lemma apply_other_kind:
  assumes "type op \<notin> {''replace_selection'', ''insert_after_selection'', ''insert_before_selection'',
                       ''comment_on_quote''}"
  shows "applyOperationToWord h op =
     io_bind (io_ignore (host_call h (SetTrackRevisions True))) (\<lambda>_.
     io_bind (document_getSelection h) (\<lambda>range.
     io_bind (insert_comment h range op) (\<lambda>_.
     host_call h Sync)))"
  using assms by (simp add: applyOperationToWord_def io_bind_return)

lemma runs_error:
  assumes "runs h t P Q m" and "sel_text d = t" and "fst (m d) = Inl e"
  shows "\<exists>l c. h l c = Some e"
proof -
  from assms(1,2) have "case fst (m d) of Inl e \<Rightarrow> \<exists>l c. h l c = Some e | Inr x \<Rightarrow> Q x"
    unfolding runs_def by blast
  with assms(3) show ?thesis by simp
qed

lemma runs_journal:
  assumes "runs h t P Q m" and "sel_text d = t"
  shows "\<exists>new. journal (snd (m d)) = journal d @ new \<and> list_all P new"
  using assms unfolding runs_def by blast

lemma runs_sel_text:
  assumes "runs h t P Q m" and "sel_text d = t"
  shows "sel_text (snd (m d)) = t"
  using assms unfolding runs_def by blast

lemma runs_return: "runs h t P (\<lambda>_. True) (io_return x)"
  by (simp add: runs_def io_return_def)

lemma runs_host_call: "P c \<Longrightarrow> runs h t P (\<lambda>_. True) (host_call h c)"
  by (auto simp: runs_def host_call_def split: option.splits)

lemma runs_bind_post:
  assumes m: "runs h t P Q m" and f: "\<And>x. Q x \<Longrightarrow> runs h t P R (f x)"
  shows "runs h t P R (io_bind m f)"
  unfolding runs_def
proof (intro allI impI)
  fix d :: document assume t: "sel_text d = t"
  obtain r d1 where md: "m d = (r, d1)" by (cases "m d")
  from m t md obtain n1 where n1: "sel_text d1 = t" "journal d1 = journal d @ n1" "list_all P n1"
    and r: "case r of Inl e \<Rightarrow> \<exists>l c. h l c = Some e | Inr x \<Rightarrow> Q x"
    unfolding runs_def by (metis fst_conv snd_conv)
  show "sel_text (snd (io_bind m f d)) = t \<and>
        (\<exists>new. journal (snd (io_bind m f d)) = journal d @ new \<and> list_all P new) \<and>
        (case fst (io_bind m f d) of Inl e \<Rightarrow> \<exists>l c. h l c = Some e | Inr x \<Rightarrow> R x)"
  proof (cases r)
    case (Inl e)
    with md have "io_bind m f d = (Inl e, d1)"
      by (simp add: io_bind_def)
    with n1 r Inl show ?thesis by auto
  next
    case (Inr x)
    with md have eq: "io_bind m f d = f x d1"
      by (simp add: io_bind_def)
    from r Inr have "Q x" by simp
    from f[OF this] n1(1) obtain n2 where n2: "sel_text (snd (f x d1)) = t"
      "journal (snd (f x d1)) = journal d1 @ n2" "list_all P n2"
      and r2: "case fst (f x d1) of Inl e \<Rightarrow> \<exists>l c. h l c = Some e | Inr y \<Rightarrow> R y"
      unfolding runs_def by blast
    have "journal (snd (io_bind m f d)) = journal d @ (n1 @ n2) \<and> list_all P (n1 @ n2)"
      using eq n1 n2 by simp
    then have "\<exists>new. journal (snd (io_bind m f d)) = journal d @ new \<and> list_all P new"
      by blast
    with eq n2 r2 show ?thesis by simp
  qed
qed

lemma runs_bind:
  "runs h t P (\<lambda>_. True) m \<Longrightarrow> (\<And>x. runs h t P R (f x)) \<Longrightarrow> runs h t P R (io_bind m f)"
  by (rule runs_bind_post)

lemma runs_ignore:
  assumes "runs h t P (\<lambda>_. True) m"
  shows "runs h t P (\<lambda>_. True) (io_ignore m)"
proof -
  have "snd (io_ignore m d) = snd (m d) \<and> fst (io_ignore m d) = Inr ()" for d
    by (cases "m d") (simp add: io_ignore_def)
  with assms show ?thesis
    by (simp add: runs_def)
qed

lemma runs_bind_getSelection:
  assumes "P GetSelection" and "runs h t P R (f SelectionRange)"
  shows "runs h t P R (io_bind (document_getSelection h) f)"
proof (rule runs_bind_post[where Q = "\<lambda>r. r = SelectionRange"])
  show "runs h t P (\<lambda>r. r = SelectionRange) (document_getSelection h)"
    unfolding document_getSelection_def
    by (rule runs_bind_post[OF runs_host_call[of P, OF assms(1)]]) (simp add: runs_def io_return_def)
  show "\<And>x. x = SelectionRange \<Longrightarrow> runs h t P R (f x)"
    using assms(2) by simp
qed

lemma runs_bind_search:
  assumes "P (Search SelectionRange q opts)"
    and "runs h t P R (f (map (\<lambda>i. Found i (length q)) (host_search opts t q)))"
  shows "runs h t P R (io_bind (search h SelectionRange q opts) f)"
proof (rule runs_bind_post[where Q = "\<lambda>res. res = map (\<lambda>i. Found i (length q)) (host_search opts t q)"])
  show "runs h t P (\<lambda>res. res = map (\<lambda>i. Found i (length q)) (host_search opts t q))
          (search h SelectionRange q opts)"
    unfolding search_def
    by (rule runs_bind_post[OF runs_host_call[of P, OF assms(1)]]) (simp add: runs_def range_text_def)
  show "\<And>x. x = map (\<lambda>i. Found i (length q)) (host_search opts t q) \<Longrightarrow> runs h t P R (f x)"
    using assms(2) by simp
qed

lemma runs_insert_comment:
  "(\<And>x. P (InsertComment r x)) \<Longrightarrow> runs h t P (\<lambda>_. True) (insert_comment h r op)"
  unfolding insert_comment_def
  by (auto intro: runs_host_call runs_return split: option.splits)

lemma runs_if:
  "(b \<Longrightarrow> runs h t P Q m) \<Longrightarrow> (\<not> b \<Longrightarrow> runs h t P Q n) \<Longrightarrow> runs h t P Q (if b then m else n)"
  by simp

lemma runs_case_list:
  "(l = [] \<Longrightarrow> runs h t P Q m) \<Longrightarrow> (\<And>x xs. l = x # xs \<Longrightarrow> runs h t P Q (f x xs))
     \<Longrightarrow> runs h t P Q (case l of [] \<Rightarrow> m | x # xs \<Rightarrow> f x xs)"
  by (cases l) simp_all

lemmas runs_intros = runs_bind_getSelection runs_bind_search runs_bind runs_ignore runs_host_call
  runs_insert_comment runs_return runs_if runs_case_list


lemma apply_runs_other:
  assumes "type op \<notin> {''replace_selection'', ''insert_after_selection'', ''insert_before_selection'',
                       ''comment_on_quote''}"
  shows "runs h t (\<lambda>c. \<forall>r x l. c \<noteq> InsertText r x l) (\<lambda>_. True) (applyOperationToWord h op)"
  unfolding apply_other_kind[OF assms]
  by (intro runs_intros) simp_all

lemma apply_runs_any:
  "runs h t (\<lambda>_. True) (\<lambda>_. True) (applyOperationToWord h op)"
  unfolding applyOperationToWord_def Let_def
  by (intro runs_intros TrueI)

lemma insert_comment_accept:
  "insert_comment accept_all r op d = (Inr (), d\<lparr>journal := journal d @ comment_calls r op\<rparr>)"
  by (simp add: insert_comment_def comment_calls_def commentText_def truthy_def or_empty_def
      host_call_accept io_return_def split: option.splits)

lemma getSelection_accept:
  "document_getSelection accept_all d = (Inr SelectionRange, d\<lparr>journal := journal d @ [GetSelection]\<rparr>)"
  by (simp add: document_getSelection_def io_bind_def io_return_def host_call_accept)

lemma search_accept:
  "search accept_all SelectionRange q opts d =
     (Inr (map (\<lambda>i. Found i (length q)) (host_search opts (sel_text d) q)),
      d\<lparr>journal := journal d @ [Search SelectionRange q opts]\<rparr>)"
  by (simp add: search_def io_bind_def host_call_accept range_text_def)

lemma apply_insert_accept:
  assumes "type op \<in> {''replace_selection'', ''insert_after_selection'', ''insert_before_selection''}"
  shows "applyOperationToWord accept_all op d =
           (Inr (), d\<lparr>journal := journal d @
              [SetTrackRevisions True, GetSelection,
               InsertText SelectionRange (new_text op)
                 (if type op = ''replace_selection'' then Replace
                  else if type op = ''insert_after_selection'' then After else Before)]
              @ comment_calls SelectionRange op @ [Sync]\<rparr>)"
  unfolding apply_insert_kind[OF assms]
  by (simp add: io_bind_def io_ignore_def host_call_accept getSelection_accept insert_comment_accept)

lemma apply_other_accept:
  assumes "type op \<notin> {''replace_selection'', ''insert_after_selection'', ''insert_before_selection'',
                       ''comment_on_quote''}"
  shows "applyOperationToWord accept_all op d =
           (Inr (), d\<lparr>journal := journal d @ [SetTrackRevisions True, GetSelection]
              @ comment_calls SelectionRange op @ [Sync]\<rparr>)"
  unfolding apply_other_kind[OF assms]
  by (simp add: io_bind_def io_ignore_def host_call_accept getSelection_accept insert_comment_accept)

lemma apply_comment_on_quote_accept:
  assumes "type op = ''comment_on_quote''"
  shows "applyOperationToWord accept_all op d =
           (Inr (), d\<lparr>journal := journal d @
              (let q = trim (or_empty (quote op)) in
               if q = [] then [SetTrackRevisions True, GetSelection, Sync]
               else [SetTrackRevisions True, GetSelection,
                     Search SelectionRange q \<lparr>matchCase = False, matchWholeWord = False\<rparr>,
                     LoadItems, Sync]
                    @ (case host_search \<lparr>matchCase = False, matchWholeWord = False\<rparr> (sel_text d) q of
                         [] \<Rightarrow> []
                       | i # _ \<Rightarrow>
                           (if highlight op then [SetHighlightColor (Found i (length q)) ''yellow''] else [])
                           @ comment_calls (Found i (length q)) op)
                    @ [Sync])\<rparr>)"
  unfolding apply_comment_on_quote[OF assms]
  by (simp add: io_bind_def io_ignore_def io_return_def host_call_accept getSelection_accept
      search_accept insert_comment_accept Let_def split: list.splits)

text \<open>The first element of a filtered interval is the least number that passes the filter.\<close>

lemma filter_upt_first:
  assumes "filter P [0 ..< n] = i # rest"
  shows "P i \<and> i < n \<and> (\<forall>j < i. \<not> P j)"
proof -
  from assms have "\<exists>us vs. [0 ..< n] = us @ i # vs \<and> (\<forall>u \<in> set us. \<not> P u) \<and> P i \<and> rest = filter P vs"
    by (simp only: filter_eq_Cons_iff)
  then obtain us vs where split: "[0 ..< n] = us @ i # vs" and none: "\<forall>u \<in> set us. \<not> P u"
    and here: "P i"
    by blast
  have "length [0 ..< n] = length (us @ i # vs)"
    by (simp only: split)
  then have len: "length us < n"
    by simp
  have "[0 ..< n] ! length us = (us @ i # vs) ! length us"
    by (simp only: split)
  with len have i: "i = length us"
    by simp
  have "take i [0 ..< n] = take i (us @ i # vs)"
    by (simp only: split)
  then have us: "us = [0 ..< i]"
    using len i by (simp add: take_upt)
  have "\<forall>j < i. \<not> P j"
    using none us by simp
  with here len i show ?thesis by simp
qed

lemma matches_at_plain:
  "matches_at \<lparr>matchCase = False, matchWholeWord = False\<rparr> text q i
     \<longleftrightarrow> map to_lower (take (length q) (drop i text)) = map to_lower q"
  by (auto simp: matches_at_def Let_def dest: map_eq_imp_length_eq)

lemma host_search_first:
  assumes "host_search \<lparr>matchCase = False, matchWholeWord = False\<rparr> text q = i # rest"
  shows "map to_lower (take (length q) (drop i text)) = map to_lower q
       \<and> (\<forall>j < i. map to_lower (take (length q) (drop j text)) \<noteq> map to_lower q)"
  using filter_upt_first[OF assms[unfolded host_search_def]]
  by (simp add: matches_at_plain)

lemma host_search_finds:
  assumes "map to_lower (take (length q) (drop j text)) = map to_lower q" and "q \<noteq> []"
  shows "host_search \<lparr>matchCase = False, matchWholeWord = False\<rparr> text q \<noteq> []"
proof -
  have "j < Suc (length text)"
  proof (rule ccontr)
    assume "\<not> j < Suc (length text)"
    then have "take (length q) (drop j text) = []" by simp
    with assms show False by simp
  qed
  then have "j \<in> set (host_search \<lparr>matchCase = False, matchWholeWord = False\<rparr> text q)"
    using assms(1) by (simp add: host_search_def matches_at_plain del: upt_Suc)
  then show ?thesis by auto
qed

section \<open>The handlers of the panel\<close>

lemma trim_Nil: "trim [] = []"
  by (simp add: trim_def)

lemma read_selection_accept:
  "read_selection accept_all d =
     (Inr (sel_text d), d\<lparr>journal := journal d @ [GetSelection, Load SelectionRange ''text'', Sync]\<rparr>)"
  by (simp add: read_selection_def io_bind_def getSelection_accept host_call_accept read_text_def
      range_text_def)

lemma read_selection_verbatim:
  assumes "read_selection h d = (Inr t, d')"
  shows "t = sel_text d"
  using assms
  by (auto simp: read_selection_def document_getSelection_def io_bind_def io_return_def
      host_call_def read_text_def range_text_def split: option.splits)

lemma runImproveWriting_blank:
  assumes "trim (sel_text (doc w)) = []"
  shows "snd (runImproveWriting e w) =
     (case read_selection (word e) (doc w) of
        (Inl m, d') \<Rightarrow> w\<lparr>doc := d', status := (CrossMark, ''Improve writing failed: '' @ m)\<rparr>
      | (Inr t, d') \<Rightarrow> w\<lparr>doc := d', status := (WarningSign, ''Please select some text first'')\<rparr>)"
proof -
  obtain r d' where rs: "read_selection (word e) (doc w) = (r, d')"
    by (cases "read_selection (word e) (doc w)")
  show ?thesis
  proof (cases r)
    case (Inl m)
    with rs show ?thesis
      by (simp add: runImproveWriting_def io_bind_def io_catch_def Word_run_def setStatus_def)
  next
    case (Inr t)
    with rs assms read_selection_verbatim[of "word e" "doc w" t d'] show ?thesis
      by (simp add: runImproveWriting_def io_bind_def io_catch_def Word_run_def setStatus_def)
  qed
qed

lemma proofread_blank:
  assumes "trim (sel_text (doc w)) = []"
  shows "snd (proofread e w) =
     (case read_selection (word e) (doc w) of
        (Inl m, d') \<Rightarrow> w\<lparr>doc := d', status := (CrossMark, ''Proofread failed: '' @ m)\<rparr>
      | (Inr t, d') \<Rightarrow> w\<lparr>doc := d', status := (WarningSign, ''Please select some text first'')\<rparr>)"
proof -
  obtain r d' where rs: "read_selection (word e) (doc w) = (r, d')"
    by (cases "read_selection (word e) (doc w)")
  show ?thesis
  proof (cases r)
    case (Inl m)
    with rs show ?thesis
      by (simp add: proofread_def io_bind_def io_catch_def Word_run_def setStatus_def)
  next
    case (Inr t)
    with rs assms read_selection_verbatim[of "word e" "doc w" t d'] show ?thesis
      by (simp add: proofread_def io_bind_def io_catch_def Word_run_def setStatus_def)
  qed
qed

lemma draft_clause_blank:
  assumes "word e = accept_all" and "trim (sel_text (doc w)) = []"
    and "useSelectionAsContext w" and "trim (clauseRequest w) \<noteq> []"
  shows "sent (snd (draft_clause e w)) =
     sent w @ [build_request e ''/api/v1/word/draft-clause''
       \<lparr>req_method = Some ''POST'', req_headers = [(''Content-Type'', ''application/json'')],
        req_body = Some (DraftClauseBody (clauseRequest w) None (or_undefined (clauseStyle w)))\<rparr> w]"
proof -
  let ?w1 = "w\<lparr>status := (NoSign, ''Drafting clause (calling API)...''),
               doc := (doc w)\<lparr>journal := journal (doc w) @ [GetSelection, Load SelectionRange ''text'', Sync]\<rparr>\<rparr>"
  let ?opts = "\<lparr>req_method = Some ''POST'', req_headers = [(''Content-Type'', ''application/json'')],
        req_body = Some (DraftClauseBody (clauseRequest w) None (or_undefined (clauseStyle w)))\<rparr>"
  have req: "build_request e ''/api/v1/word/draft-clause'' ?opts ?w1
      = build_request e ''/api/v1/word/draft-clause'' ?opts w"
    by (simp add: build_request_def)
  have sent_api: "sent (snd (apiRequest e ''/api/v1/word/draft-clause'' ?opts ?w1))
      = sent w @ [build_request e ''/api/v1/word/draft-clause'' ?opts w]"
    unfolding req[symmetric]
    by (simp add: apiRequest_def Let_def split: sum.splits)
  have keep: "sent (snd (Word_run m v)) = sent v" for m :: "(document, unit) io" and v
    by (simp add: Word_run_def split: prod.splits)
  obtain r w2 where api: "apiRequest e ''/api/v1/word/draft-clause'' ?opts ?w1 = (r, w2)"
    by (cases "apiRequest e ''/api/v1/word/draft-clause'' ?opts ?w1")
  with sent_api have w2: "sent w2 = sent w @ [build_request e ''/api/v1/word/draft-clause'' ?opts w]"
    by simp
  have "sent (snd (draft_clause e w)) = sent w2"
    using assms api keep
    by (simp add: draft_clause_def draftClause_def io_bind_def io_catch_def io_return_def
        Word_run_def setStatus_def read_selection_accept or_undefined_def[of "[]"]
        split: sum.splits option.splits prod.splits) auto
  with w2 show ?thesis by simp
qed

lemma apply_operations_stop:
  assumes "apply_operations e pre w = (Inr (), w3)"
    and "applyOperationToWord (word e) op (doc w3) = (Inl m, d4)"
  shows "apply_operations e (pre @ op # post) w = (Inl m, w3\<lparr>doc := d4\<rparr>)"
  using assms(1)
proof (induction pre arbitrary: w)
  case Nil
  then have "w3 = w"
    by (simp add: io_return_def)
  with assms(2) show ?case
    by (simp add: io_bind_def Word_run_def)
next
  case (Cons a pre)
  obtain r w1 where step: "Word_run (applyOperationToWord (word e) a) w = (r, w1)"
    by (cases "Word_run (applyOperationToWord (word e) a) w")
  show ?case
  proof (cases r)
    case (Inl x)
    with step Cons.prems show ?thesis
      by (simp add: io_bind_def)
  next
    case (Inr u)
    with step Cons.prems have "apply_operations e pre w1 = (Inr (), w3)"
      by (simp add: io_bind_def)
    from Cons.IH[OF this] step Inr show ?thesis
      by (simp add: io_bind_def)
  qed
qed

lemma proofread_batch:
  assumes "read_selection (word e) (doc w) = (Inr t, d1)" and "trim t \<noteq> []"
    and "proofreadSelection e t
           (w\<lparr>status := (NoSign, ''Proofreading selection (calling API)...''), doc := d1\<rparr>)
         = (Inr resp, w2)"
    and "operations resp = Some ops" and "ops \<noteq> []"
  shows "proofread e w =
     (case apply_operations e ops w2 of
        (Inl m, w3) \<Rightarrow> (Inr (), w3\<lparr>status := (CrossMark, ''Proofread failed: '' @ m)\<rparr>)
      | (Inr u, w3) \<Rightarrow>
          (Inr (), w3\<lparr>status := (CheckMark, ''Added '' @ string_of_nat (length ops) @ '' comments'')\<rparr>))"
  using assms
  by (simp add: proofread_def io_bind_def io_catch_def Word_run_def setStatus_def
      split: prod.splits sum.splits)

lemma search_examples:
  "host_search \<lparr>matchCase = False, matchWholeWord = False\<rparr> ''ab cd ef'' ''ab'' = [0]"
  "host_search \<lparr>matchCase = False, matchWholeWord = False\<rparr> ''ab cd ef'' ''cd'' = [3]"
  "host_search \<lparr>matchCase = False, matchWholeWord = False\<rparr> ''ab cd ef'' ''ef'' = [6]"
  by code_simp+

lemma trim_examples: "trim ''ab'' = ''ab''" "trim ''cd'' = ''cd''" "trim ''ef'' = ''ef''"
  "trim ''ab cd ef'' = ''ab cd ef''"
  by code_simp+

lemma c2_first_operation:
  assumes "sel_text d = ''ab cd ef''"
  shows "applyOperationToWord c2_host (c2_op ''ab'' ''one'') d =
     (Inr (), d\<lparr>journal := journal d @
        [SetTrackRevisions True, GetSelection,
         Search SelectionRange ''ab'' \<lparr>matchCase = False, matchWholeWord = False\<rparr>, LoadItems, Sync,
         InsertComment (Found 0 2) ''one'', Sync]\<rparr>)"
  using assms
  by (simp add: applyOperationToWord_def c2_op_def c2_host_def document_getSelection_def search_def
      insert_comment_def commentText_def truthy_def or_empty_def range_text_def host_call_def
      io_defs Let_def search_examples trim_examples)

lemma c2_second_operation:
  assumes "sel_text d = ''ab cd ef''"
  shows "applyOperationToWord c2_host (c2_op ''cd'' ''two'') d =
     (Inl ''GeneralException'', d\<lparr>journal := journal d @
        [SetTrackRevisions True, GetSelection,
         Search SelectionRange ''cd'' \<lparr>matchCase = False, matchWholeWord = False\<rparr>, LoadItems, Sync]\<rparr>)"
  using assms
  by (simp add: applyOperationToWord_def c2_op_def c2_host_def document_getSelection_def search_def
      insert_comment_def commentText_def truthy_def or_empty_def range_text_def host_call_def
      io_defs Let_def search_examples trim_examples)

lemma c2_read_selection:
  "read_selection c2_host d =
     (Inr (sel_text d), d\<lparr>journal := journal d @ [GetSelection, Load SelectionRange ''text'', Sync]\<rparr>)"
  by (simp add: read_selection_def c2_host_def document_getSelection_def read_text_def
      range_text_def host_call_def io_defs)

lemma c2_proofreadSelection:
  "proofreadSelection (c2_env ops) t w =
     (Inr \<lparr>detail = None, operations = Some ops\<rparr>,
      w\<lparr>sent := sent w @ [build_request (c2_env ops) ''/api/v1/word/proofread''
          \<lparr>req_method = Some ''POST'', req_headers = [(''Content-Type'', ''application/json'')],
           req_body = Some (ProofreadBody t)\<rparr> w]\<rparr>)"
  by (simp add: proofreadSelection_def apiRequest_def Let_def c2_env_def c2_fetch_def res_ok_def)

lemma first_operation_take:
  "first_operation (j\<lparr>operations := map_option (take 1) (operations j)\<rparr>) = first_operation j"
  by (simp add: first_operation_def split: option.splits list.splits)

lemma apiRequest_first_only:
  "apiRequest (e\<lparr>fetch := first_only (fetch e)\<rparr>) path options w =
     (case apiRequest e path options w of
        (Inl m, w') \<Rightarrow> (Inl m, w')
      | (Inr j, w') \<Rightarrow> (Inr (j\<lparr>operations := map_option (take 1) (operations j)\<rparr>), w'))"
proof -
  let ?req = "build_request e path options w"
  have req: "build_request (e\<lparr>fetch := first_only (fetch e)\<rparr>) path options w = ?req"
    by (simp add: build_request_def)
  show ?thesis
  proof (cases "fetch e ?req")
    case (Inl m)
    then show ?thesis
      by (simp add: apiRequest_def req first_only_def Let_def)
  next
    case (Inr res)
    show ?thesis
    proof (cases "res_json res")
      case (Inl m)
      with Inr show ?thesis
        by (simp add: apiRequest_def req first_only_def res_ok_def Let_def)
    next
      case json: (Inr j)
      with Inr show ?thesis
        by (simp add: apiRequest_def req first_only_def res_ok_def Let_def split: option.splits)
    qed
  qed
qed

lemma bind_first_only:
  assumes "\<And>w. m' w = (case m w of
        (Inl x, w') \<Rightarrow> (Inl x, w')
      | (Inr j, w') \<Rightarrow> (Inr (j\<lparr>operations := map_option (take 1) (operations j)\<rparr>), w'))"
  shows "io_bind m' (\<lambda>resp. case first_operation resp of None \<Rightarrow> a | Some op \<Rightarrow> b op)
       = io_bind m (\<lambda>resp. case first_operation resp of None \<Rightarrow> a | Some op \<Rightarrow> b op)"
proof
  fix w
  show "io_bind m' (\<lambda>resp. case first_operation resp of None \<Rightarrow> a | Some op \<Rightarrow> b op) w
      = io_bind m (\<lambda>resp. case first_operation resp of None \<Rightarrow> a | Some op \<Rightarrow> b op) w"
  proof -
    obtain r w' where mw: "m w = (r, w')"
      by (cases "m w")
    show ?thesis
    proof (cases r)
      case (Inl x)
      with mw show ?thesis
        by (simp add: io_bind_def assms)
    next
      case (Inr j)
      with mw first_operation_take[of j] show ?thesis
        by (simp add: io_bind_def assms)
    qed
  qed
qed

lemma runImproveWriting_first_only:
  "runImproveWriting (e\<lparr>fetch := first_only (fetch e)\<rparr>) = runImproveWriting e"
proof -
  have inner: "io_bind (\<lambda>w. improveWriting (e\<lparr>fetch := first_only (fetch e)\<rparr>) t
                       (or_undefined (improveInstructions w)) w)
          (\<lambda>resp. case first_operation resp of None \<Rightarrow> a | Some op \<Rightarrow> b op)
      = io_bind (\<lambda>w. improveWriting e t (or_undefined (improveInstructions w)) w)
          (\<lambda>resp. case first_operation resp of None \<Rightarrow> a | Some op \<Rightarrow> b op)" for t a b
    by (rule bind_first_only) (simp add: improveWriting_def apiRequest_first_only)
  have same: "word (e\<lparr>fetch := first_only (fetch e)\<rparr>) = word e"
    by simp
  show ?thesis
    unfolding runImproveWriting_def inner same by (rule refl)
qed

lemma draft_clause_first_only:
  "draft_clause (e\<lparr>fetch := first_only (fetch e)\<rparr>) = draft_clause e"
proof -
  have inner: "io_bind (draftClause (e\<lparr>fetch := first_only (fetch e)\<rparr>) r c s)
          (\<lambda>resp. case first_operation resp of None \<Rightarrow> a | Some op \<Rightarrow> b op)
      = io_bind (draftClause e r c s)
          (\<lambda>resp. case first_operation resp of None \<Rightarrow> a | Some op \<Rightarrow> b op)" for r c s a b
    unfolding draftClause_def
    by (rule bind_first_only[OF apiRequest_first_only])
  have same: "word (e\<lparr>fetch := first_only (fetch e)\<rparr>) = word e"
    by simp
  show ?thesis
    unfolding draft_clause_def inner same by (rule refl)
qed

lemma runs_search_any: "runs h t (\<lambda>_. True) (\<lambda>_. True) (search h r q opts)"
  by (auto simp: runs_def search_def io_bind_def host_call_def split: option.splits)

lemma ends_with_sync_host_call: "ends_with_sync (host_call h Sync)"
  by (auto simp: ends_with_sync_def host_call_def split: option.splits)

lemma ends_with_sync_bind:
  assumes m: "\<And>t. runs h t (\<lambda>_. True) (\<lambda>_. True) m" and f: "\<And>x. ends_with_sync (f x)"
  shows "ends_with_sync (io_bind m f)"
  unfolding ends_with_sync_def
proof (intro allI impI)
  fix d :: document and u d'
  assume run: "io_bind m f d = (Inr u, d')"
  obtain r d1 where md: "m d = (r, d1)"
    by (cases "m d")
  from runs_journal[OF m refl, of d] md obtain new where new: "journal d1 = journal d @ new"
    by auto
  show "\<exists>pre. journal d' = journal d @ pre @ [Sync]"
  proof (cases r)
    case (Inl x)
    with md run show ?thesis
      by (simp add: io_bind_def)
  next
    case (Inr x)
    with md run have "f x d1 = (Inr u, d')"
      by (simp add: io_bind_def)
    with f[of x] obtain pre where "journal d' = journal d1 @ pre @ [Sync]"
      unfolding ends_with_sync_def by blast
    with new have "journal d' = journal d @ (new @ pre) @ [Sync]"
      by simp
    then show ?thesis
      by blast
  qed
qed

lemma ends_with_sync_if:
  "(b \<Longrightarrow> ends_with_sync m) \<Longrightarrow> (\<not> b \<Longrightarrow> ends_with_sync n) \<Longrightarrow> ends_with_sync (if b then m else n)"
  by simp

lemma runs_getSelection_any: "runs h t (\<lambda>_. True) (\<lambda>_. True) (document_getSelection h)"
  unfolding document_getSelection_def
  by (intro runs_intros TrueI)

lemma runs_found_any:
  "runs h t (\<lambda>_. True) (\<lambda>_. True)
     (case results of
        [] \<Rightarrow> io_return ()
      | found # _ \<Rightarrow>
          io_bind
            (if highlight op then io_ignore (host_call h (SetHighlightColor found ''yellow''))
             else io_return ()) (\<lambda>_.
          insert_comment h found op))"
  by (intro runs_intros TrueI)

lemma apply_ends_with_sync: "ends_with_sync (applyOperationToWord h op)"
  unfolding applyOperationToWord_def Let_def
  by (intro ends_with_sync_bind[where h = h] ends_with_sync_if ends_with_sync_host_call
      runs_getSelection_any runs_search_any runs_found_any runs_intros TrueI)

lemma apply_operations_all_succeed:
  assumes "all_succeed (word e) ops (doc w)"
  shows "apply_operations e ops w =
     (Inr (), w\<lparr>doc := fold (\<lambda>op d. snd (applyOperationToWord (word e) op d)) ops (doc w)\<rparr>)"
  using assms
proof (induction ops arbitrary: w)
  case Nil
  show ?case
    by (simp add: io_return_def)
next
  case (Cons op ops)
  obtain r d1 where step: "applyOperationToWord (word e) op (doc w) = (r, d1)"
    by (cases "applyOperationToWord (word e) op (doc w)")
  with Cons.prems obtain u where r: "r = Inr u" and rest: "all_succeed (word e) ops d1"
    by (cases r) simp_all
  from rest have "all_succeed (word e) ops (doc (w\<lparr>doc := d1\<rparr>))"
    by simp
  from Cons.IH[OF this] step r show ?case
    by (simp add: io_bind_def Word_run_def)
qed

lemma runImproveWriting_first:
  assumes "read_selection (word e) (doc w) = (Inr t, d1)" and "trim t \<noteq> []"
    and "improveWriting e t (or_undefined (improveInstructions w))
           (w\<lparr>status := (NoSign, ''Improving writing (calling API)...''), doc := d1\<rparr>)
         = (Inr resp, w2)"
    and "operations resp = Some (op # rest)"
  shows "runImproveWriting e w =
     (Inr (), case applyOperationToWord (word e) op (doc w2) of
        (Inl m, d) \<Rightarrow> w2\<lparr>status := (CrossMark, ''Improve writing failed: '' @ m), doc := d\<rparr>
      | (Inr u, d) \<Rightarrow>
          w2\<lparr>status := (CheckMark, ''Improve writing applied (tracked if enabled)''), doc := d\<rparr>)"
  using assms
  by (simp add: runImproveWriting_def io_bind_def io_catch_def Word_run_def setStatus_def
      first_operation_def split: prod.splits sum.splits)

lemma draft_clause_first:
  assumes "if useSelectionAsContext w then read_selection (word e) (doc w) = (Inr t, d1)
           else t = [] \<and> d1 = doc w"
    and "trim (clauseRequest w) \<noteq> []"
    and "draftClause e (clauseRequest w) (or_undefined (trim t)) (or_undefined (clauseStyle w))
           (w\<lparr>status := (NoSign, ''Drafting clause (calling API)...''), doc := d1\<rparr>)
         = (Inr resp, w2)"
    and "operations resp = Some (op # rest)"
  shows "draft_clause e w =
     (Inr (), case applyOperationToWord (word e) op (doc w2) of
        (Inl m, d) \<Rightarrow> w2\<lparr>status := (CrossMark, ''Draft clause failed: '' @ m), doc := d\<rparr>
      | (Inr u, d) \<Rightarrow>
          w2\<lparr>status := (CheckMark, ''Clause inserted (tracked if enabled)''), doc := d\<rparr>)"
proof (cases "useSelectionAsContext w")
  case True
  with assms show ?thesis
    by (simp add: draft_clause_def io_bind_def io_catch_def io_return_def Word_run_def
        setStatus_def first_operation_def split: prod.splits sum.splits)
next
  case False
  with assms show ?thesis
    by (simp add: draft_clause_def io_bind_def io_catch_def io_return_def Word_run_def
        setStatus_def first_operation_def trim_Nil or_undefined_def[of "[]"]
        split: prod.splits sum.splits)
qed

lemma c3_api:
  assumes "fetch e = c3_fetch"
  shows "apiRequest e path options w =
     (Inr \<lparr>detail = None, operations = Some c3_ops\<rparr>,
      w\<lparr>sent := sent w @ [build_request e path options w]\<rparr>)"
  by (simp add: apiRequest_def Let_def assms c3_fetch_def res_ok_def)

lemma c3_read_selection:
  "read_selection c3_host d =
     (Inr (sel_text d), d\<lparr>journal := journal d @ [GetSelection, Load SelectionRange ''text'', Sync]\<rparr>)"
  by (simp add: read_selection_def c3_host_def document_getSelection_def read_text_def
      range_text_def host_call_def io_defs)

lemma c3_operations:
  "applyOperationToWord c3_host (c3_ops ! 0) d =
     (Inr (), d\<lparr>journal := journal d @
        [GetSelection, InsertText SelectionRange (Some ''one'') Replace, Sync]\<rparr>)"
  "applyOperationToWord c3_host (c3_ops ! Suc 0) d =
     (Inr (), d\<lparr>journal := journal d @
        [GetSelection, InsertText SelectionRange (Some ''two'') After, Sync]\<rparr>)"
  by (simp_all add: c3_ops_def applyOperationToWord_def c3_host_def document_getSelection_def
      insert_comment_def host_call_def io_defs)

section \<open>The claims\<close>

text \<open>
  C1 (as amended). For an operation of kind \<open>replace_selection\<close>,
  \<open>insert_after_selection\<close> or \<open>insert_before_selection\<close> the applier does not
  check \<open>new_text\<close>: it hands it, null included, to the host's \<open>insertText\<close> at the
  location of the kind. Against a host that accepts every call the operation succeeds
  with that call in the journal, and against any host an error of the operation is an
  error that the host threw.
\<close>

theorem C1_new_text_unchecked:
  assumes "type op \<in> {''replace_selection'', ''insert_after_selection'', ''insert_before_selection''}"
  shows "applyOperationToWord accept_all op d =
           (Inr (), d\<lparr>journal := journal d @
              [SetTrackRevisions True, GetSelection,
               InsertText SelectionRange (new_text op)
                 (if type op = ''replace_selection'' then Replace
                  else if type op = ''insert_after_selection'' then After else Before)]
              @ comment_calls SelectionRange op @ [Sync]\<rparr>)
         \<and> (\<forall>h m. fst (applyOperationToWord h op d) = Inl m \<longrightarrow> (\<exists>l c. h l c = Some m))"
proof -
  have "\<exists>l c. h l c = Some m" if "fst (applyOperationToWord h op d) = Inl m" for h m
    using runs_error[OF apply_runs_any refl that] .
  then show ?thesis
    using apply_insert_accept[OF assms] by blast
qed

theorem C1_witness:
  "applyOperationToWord accept_all c1_op_after c1_doc =
     (Inr (), c1_doc\<lparr>journal :=
        [SetTrackRevisions True, GetSelection, InsertText SelectionRange None After,
         InsertComment SelectionRange ''Note: check'', Sync]\<rparr>)
   \<and> applyOperationToWord c1_strict_host c1_op_after c1_doc =
     (Inl ''InvalidArgument'', c1_doc\<lparr>journal := [SetTrackRevisions True, GetSelection]\<rparr>)
   \<and> c1_strict_host [SetTrackRevisions True, GetSelection] (InsertText SelectionRange None After)
       = Some ''InvalidArgument''"
proof -
  have kind: "type c1_op_after \<in>
      {''replace_selection'', ''insert_after_selection'', ''insert_before_selection''}"
    by (simp add: c1_op_after_def)
  have strict: "applyOperationToWord c1_strict_host c1_op_after c1_doc =
     (Inl ''InvalidArgument'', c1_doc\<lparr>journal := [SetTrackRevisions True, GetSelection]\<rparr>)"
    by (simp add: applyOperationToWord_def c1_op_after_def c1_doc_def c1_strict_host_def
        document_getSelection_def io_defs host_call_def)
  show ?thesis
    using C1_new_text_unchecked[OF kind, of c1_doc] strict
    by (simp add: c1_op_after_def c1_doc_def comment_calls_def c1_strict_host_def)
qed

theorem C1_counterexample:
  "fst (applyOperationToWord accept_all c1_op c1_doc) = Inr ()
   \<and> journal (snd (applyOperationToWord accept_all c1_op c1_doc)) =
       [SetTrackRevisions True, GetSelection, InsertText SelectionRange None Replace, Sync]"
  by (simp add: applyOperationToWord_def c1_op_def c1_doc_def document_getSelection_def
      insert_comment_def io_defs host_call_accept)

text \<open>
  C2 (as amended). When operation k of a proofread batch fails (the host rejects one of
  its calls), what operations 1..k-1 did stays in the document, as do the calls of
  operation k that the host accepted before: the journal is only extended, nothing is
  rolled back. The operations after k are not attempted: the handler stops with the
  status \<open>Proofread failed:\<close> and the host's message, whatever follows k in the batch.
\<close>

theorem C2_batch_stops_at_first_failure:
  assumes "read_selection (word e) (doc w) = (Inr t, d1)" and "trim t \<noteq> []"
    and "proofreadSelection e t
           (w\<lparr>status := (NoSign, ''Proofreading selection (calling API)...''), doc := d1\<rparr>)
         = (Inr resp, w2)"
    and "operations resp = Some (pre @ op # post)"
    and "apply_operations e pre w2 = (Inr (), w3)"
    and "applyOperationToWord (word e) op (doc w3) = (Inl m, d4)"
  shows "apply_operations e (pre @ op # post) w2 = (Inl m, w3\<lparr>doc := d4\<rparr>)
       \<and> proofread e w = (Inr (), w3\<lparr>status := (CrossMark, ''Proofread failed: '' @ m), doc := d4\<rparr>)
       \<and> (\<exists>new. journal d4 = journal (doc w3) @ new)"
proof -
  have stop: "apply_operations e (pre @ op # post) w2 = (Inl m, w3\<lparr>doc := d4\<rparr>)"
    using apply_operations_stop[OF assms(5,6)] .
  have "proofread e w = (Inr (), w3\<lparr>status := (CrossMark, ''Proofread failed: '' @ m), doc := d4\<rparr>)"
    using proofread_batch[OF assms(1-4)] stop by simp
  moreover have "\<exists>new. journal d4 = journal (doc w3) @ new"
    using runs_journal[OF apply_runs_any, of "doc w3" "sel_text (doc w3)" "word e" op] assms(6)
    by auto
  ultimately show ?thesis
    using stop by blast
qed

theorem C2_witness:
  "status (snd (proofread (c2_env [c2_op ''cd'' ''two'', c2_op ''ef'' ''three'']) c2_world))
     = (CrossMark, ''Proofread failed: GeneralException'')
   \<and> journal (doc (snd (proofread (c2_env [c2_op ''cd'' ''two'', c2_op ''ef'' ''three'']) c2_world)))
     = [GetSelection, Load SelectionRange ''text'', Sync,
        SetTrackRevisions True, GetSelection,
        Search SelectionRange ''cd'' \<lparr>matchCase = False, matchWholeWord = False\<rparr>, LoadItems, Sync]"
proof -
  let ?e = "c2_env [c2_op ''cd'' ''two'', c2_op ''ef'' ''three'']"
  let ?d1 = "\<lparr>sel_text = ''ab cd ef'', journal = [GetSelection, Load SelectionRange ''text'', Sync]\<rparr>"
  let ?w1 = "c2_world\<lparr>status := (NoSign, ''Proofreading selection (calling API)...''), doc := ?d1\<rparr>"
  let ?w2 = "?w1\<lparr>sent := sent ?w1 @ [build_request ?e ''/api/v1/word/proofread''
          \<lparr>req_method = Some ''POST'', req_headers = [(''Content-Type'', ''application/json'')],
           req_body = Some (ProofreadBody ''ab cd ef'')\<rparr> ?w1]\<rparr>"
  let ?d4 = "?d1\<lparr>journal := journal ?d1 @
        [SetTrackRevisions True, GetSelection,
         Search SelectionRange ''cd'' \<lparr>matchCase = False, matchWholeWord = False\<rparr>, LoadItems, Sync]\<rparr>"
  have h1: "read_selection (word ?e) (doc c2_world) = (Inr ''ab cd ef'', ?d1)"
    by (simp add: c2_env_def c2_world_def c2_read_selection)
  have h2: "trim ''ab cd ef'' \<noteq> []"
    by (simp add: trim_examples)
  have h3: "proofreadSelection ?e ''ab cd ef'' ?w1
      = (Inr \<lparr>detail = None, operations = Some [c2_op ''cd'' ''two'', c2_op ''ef'' ''three'']\<rparr>, ?w2)"
    by (simp only: c2_proofreadSelection)
  have h4: "operations \<lparr>detail = None, operations = Some [c2_op ''cd'' ''two'', c2_op ''ef'' ''three'']\<rparr>
      = Some ([] @ c2_op ''cd'' ''two'' # [c2_op ''ef'' ''three''])"
    by simp
  have h5: "apply_operations ?e [] ?w2 = (Inr (), ?w2)"
    by (simp add: io_return_def)
  have h6: "applyOperationToWord (word ?e) (c2_op ''cd'' ''two'') (doc ?w2) = (Inl ''GeneralException'', ?d4)"
    by (simp add: c2_env_def c2_second_operation)
  show ?thesis
    using C2_batch_stops_at_first_failure[OF h1 h2 h3 h4 h5 h6]
    by simp
qed

theorem C2_counterexample:
  "status (snd (proofread
      (c2_env [c2_op ''ab'' ''one'', c2_op ''cd'' ''two'', c2_op ''ef'' ''three'']) c2_world))
     = (CrossMark, ''Proofread failed: GeneralException'')
   \<and> journal (doc (snd (proofread
      (c2_env [c2_op ''ab'' ''one'', c2_op ''cd'' ''two'', c2_op ''ef'' ''three'']) c2_world)))
     = [GetSelection, Load SelectionRange ''text'', Sync,
        SetTrackRevisions True, GetSelection,
        Search SelectionRange ''ab'' \<lparr>matchCase = False, matchWholeWord = False\<rparr>, LoadItems, Sync,
        InsertComment (Found 0 2) ''one'', Sync,
        SetTrackRevisions True, GetSelection,
        Search SelectionRange ''cd'' \<lparr>matchCase = False, matchWholeWord = False\<rparr>, LoadItems, Sync]"
proof -
  let ?ops = "[c2_op ''ab'' ''one'', c2_op ''cd'' ''two'', c2_op ''ef'' ''three'']"
  let ?d1 = "\<lparr>sel_text = ''ab cd ef'', journal = [GetSelection, Load SelectionRange ''text'', Sync]\<rparr>"
  let ?w1 = "c2_world\<lparr>status := (NoSign, ''Proofreading selection (calling API)...''), doc := ?d1\<rparr>"
  let ?w2 = "?w1\<lparr>sent := sent ?w1 @ [build_request (c2_env ?ops) ''/api/v1/word/proofread''
          \<lparr>req_method = Some ''POST'', req_headers = [(''Content-Type'', ''application/json'')],
           req_body = Some (ProofreadBody ''ab cd ef'')\<rparr> ?w1]\<rparr>"
  have h1: "read_selection (word (c2_env ?ops)) (doc c2_world) = (Inr ''ab cd ef'', ?d1)"
    by (simp add: c2_env_def c2_world_def c2_read_selection)
  have h2: "trim ''ab cd ef'' \<noteq> []"
    by (simp add: trim_examples)
  have h3: "proofreadSelection (c2_env ?ops) ''ab cd ef'' ?w1
      = (Inr \<lparr>detail = None, operations = Some ?ops\<rparr>, ?w2)"
    by (simp only: c2_proofreadSelection)
  have loop: "apply_operations (c2_env ?ops) ?ops ?w2 =
      (Inl ''GeneralException'', ?w2\<lparr>doc := ?d1\<lparr>journal := journal ?d1 @
        [SetTrackRevisions True, GetSelection,
         Search SelectionRange ''ab'' \<lparr>matchCase = False, matchWholeWord = False\<rparr>, LoadItems, Sync,
         InsertComment (Found 0 2) ''one'', Sync,
         SetTrackRevisions True, GetSelection,
         Search SelectionRange ''cd'' \<lparr>matchCase = False, matchWholeWord = False\<rparr>, LoadItems, Sync]\<rparr>\<rparr>)"
    by (simp add: io_bind_def Word_run_def c2_env_def c2_first_operation c2_second_operation)
  show ?thesis
    using proofread_batch[OF h1 h2 h3, of ?ops] loop
    by simp
qed

text \<open>
  C3 (as amended). In the proofread flow, when no operation of the batch fails, every
  operation is applied, in the order received: the document that the handler leaves is
  the one obtained by applying the first operation, then the second to what the first
  left, and so on, and the status line counts them. Whenever an operation returns
  without an error, its last call is the host synchronisation, so that call is made
  before the next operation begins. The improve-writing and draft-clause flows apply the
  first operation of the batch and only that one: whatever follows it in the batch makes
  no difference.
\<close>

theorem C3_batch_in_order:
  "(all_succeed (word e) ops (doc w) \<longrightarrow>
      apply_operations e ops w =
        (Inr (), w\<lparr>doc := fold (\<lambda>op d. snd (applyOperationToWord (word e) op d)) ops (doc w)\<rparr>))
   \<and> (\<forall>t d1 resp w2.
        read_selection (word e) (doc w) = (Inr t, d1) \<and> trim t \<noteq> []
        \<and> proofreadSelection e t
            (w\<lparr>status := (NoSign, ''Proofreading selection (calling API)...''), doc := d1\<rparr>)
          = (Inr resp, w2)
        \<and> operations resp = Some ops \<and> ops \<noteq> [] \<and> all_succeed (word e) ops (doc w2) \<longrightarrow>
        proofread e w =
          (Inr (), w2\<lparr>status := (CheckMark, ''Added '' @ string_of_nat (length ops) @ '' comments''),
                      doc := fold (\<lambda>op d. snd (applyOperationToWord (word e) op d)) ops (doc w2)\<rparr>))
   \<and> (\<forall>h op d u d'. applyOperationToWord h op d = (Inr u, d') \<longrightarrow>
        (\<exists>pre. journal d' = journal d @ pre @ [Sync]))
   \<and> (\<forall>t d1 resp w2 op rest.
        read_selection (word e) (doc w) = (Inr t, d1) \<and> trim t \<noteq> []
        \<and> improveWriting e t (or_undefined (improveInstructions w))
            (w\<lparr>status := (NoSign, ''Improving writing (calling API)...''), doc := d1\<rparr>)
          = (Inr resp, w2)
        \<and> operations resp = Some (op # rest) \<longrightarrow>
        runImproveWriting e w =
          (Inr (), case applyOperationToWord (word e) op (doc w2) of
             (Inl m, d) \<Rightarrow> w2\<lparr>status := (CrossMark, ''Improve writing failed: '' @ m), doc := d\<rparr>
           | (Inr u, d) \<Rightarrow>
               w2\<lparr>status := (CheckMark, ''Improve writing applied (tracked if enabled)''),
                  doc := d\<rparr>))
   \<and> (\<forall>t d1 resp w2 op rest.
        (if useSelectionAsContext w then read_selection (word e) (doc w) = (Inr t, d1)
         else t = [] \<and> d1 = doc w)
        \<and> trim (clauseRequest w) \<noteq> []
        \<and> draftClause e (clauseRequest w) (or_undefined (trim t)) (or_undefined (clauseStyle w))
            (w\<lparr>status := (NoSign, ''Drafting clause (calling API)...''), doc := d1\<rparr>)
          = (Inr resp, w2)
        \<and> operations resp = Some (op # rest) \<longrightarrow>
        draft_clause e w =
          (Inr (), case applyOperationToWord (word e) op (doc w2) of
             (Inl m, d) \<Rightarrow> w2\<lparr>status := (CrossMark, ''Draft clause failed: '' @ m), doc := d\<rparr>
           | (Inr u, d) \<Rightarrow>
               w2\<lparr>status := (CheckMark, ''Clause inserted (tracked if enabled)''), doc := d\<rparr>))
   \<and> runImproveWriting (e\<lparr>fetch := first_only (fetch e)\<rparr>) = runImproveWriting e
   \<and> draft_clause (e\<lparr>fetch := first_only (fetch e)\<rparr>) = draft_clause e"
proof -
  have c1: "(all_succeed (word e) ops (doc w) \<longrightarrow>
      apply_operations e ops w =
        (Inr (), w\<lparr>doc := fold (\<lambda>op d. snd (applyOperationToWord (word e) op d)) ops (doc w)\<rparr>))"
    using apply_operations_all_succeed by blast
  have c2: "(\<forall>t d1 resp w2.
        read_selection (word e) (doc w) = (Inr t, d1) \<and> trim t \<noteq> []
        \<and> proofreadSelection e t
            (w\<lparr>status := (NoSign, ''Proofreading selection (calling API)...''), doc := d1\<rparr>)
          = (Inr resp, w2)
        \<and> operations resp = Some ops \<and> ops \<noteq> [] \<and> all_succeed (word e) ops (doc w2) \<longrightarrow>
        proofread e w =
          (Inr (), w2\<lparr>status := (CheckMark, ''Added '' @ string_of_nat (length ops) @ '' comments''),
                      doc := fold (\<lambda>op d. snd (applyOperationToWord (word e) op d)) ops (doc w2)\<rparr>))"
    using proofread_batch apply_operations_all_succeed by (auto simp del: fold_simps)
  have c3: "(\<forall>h op d u d'. applyOperationToWord h op d = (Inr u, d') \<longrightarrow>
        (\<exists>pre. journal d' = journal d @ pre @ [Sync]))"
    using apply_ends_with_sync unfolding ends_with_sync_def by blast
  have c4: "(\<forall>t d1 resp w2 op rest.
        read_selection (word e) (doc w) = (Inr t, d1) \<and> trim t \<noteq> []
        \<and> improveWriting e t (or_undefined (improveInstructions w))
            (w\<lparr>status := (NoSign, ''Improving writing (calling API)...''), doc := d1\<rparr>)
          = (Inr resp, w2)
        \<and> operations resp = Some (op # rest) \<longrightarrow>
        runImproveWriting e w =
          (Inr (), case applyOperationToWord (word e) op (doc w2) of
             (Inl m, d) \<Rightarrow> w2\<lparr>status := (CrossMark, ''Improve writing failed: '' @ m), doc := d\<rparr>
           | (Inr u, d) \<Rightarrow>
               w2\<lparr>status := (CheckMark, ''Improve writing applied (tracked if enabled)''),
                  doc := d\<rparr>))"
    using runImproveWriting_first by blast
  have c5: "(\<forall>t d1 resp w2 op rest.
        (if useSelectionAsContext w then read_selection (word e) (doc w) = (Inr t, d1)
         else t = [] \<and> d1 = doc w)
        \<and> trim (clauseRequest w) \<noteq> []
        \<and> draftClause e (clauseRequest w) (or_undefined (trim t)) (or_undefined (clauseStyle w))
            (w\<lparr>status := (NoSign, ''Drafting clause (calling API)...''), doc := d1\<rparr>)
          = (Inr resp, w2)
        \<and> operations resp = Some (op # rest) \<longrightarrow>
        draft_clause e w =
          (Inr (), case applyOperationToWord (word e) op (doc w2) of
             (Inl m, d) \<Rightarrow> w2\<lparr>status := (CrossMark, ''Draft clause failed: '' @ m), doc := d\<rparr>
           | (Inr u, d) \<Rightarrow>
               w2\<lparr>status := (CheckMark, ''Clause inserted (tracked if enabled)''), doc := d\<rparr>))"
    using draft_clause_first by blast
  have c6: "runImproveWriting (e\<lparr>fetch := first_only (fetch e)\<rparr>) = runImproveWriting e"
    by (rule runImproveWriting_first_only)
  have c7: "draft_clause (e\<lparr>fetch := first_only (fetch e)\<rparr>) = draft_clause e"
    by (rule draft_clause_first_only)
  show ?thesis
    by (intro conjI c1 c2 c3 c4 c5 c6 c7)
qed

theorem C3_witness:
  "status (snd (proofread c3_env_strict c3_world)) = (CheckMark, ''Added 2 comments'')
   \<and> journal (doc (snd (proofread c3_env_strict c3_world))) =
       [GetSelection, Load SelectionRange ''text'', Sync,
        GetSelection, InsertText SelectionRange (Some ''one'') Replace, Sync,
        GetSelection, InsertText SelectionRange (Some ''two'') After, Sync]
   \<and> status (snd (runImproveWriting c3_env_strict c3_world))
       = (CheckMark, ''Improve writing applied (tracked if enabled)'')
   \<and> journal (doc (snd (runImproveWriting c3_env_strict c3_world))) =
       [GetSelection, Load SelectionRange ''text'', Sync,
        GetSelection, InsertText SelectionRange (Some ''one'') Replace, Sync]
   \<and> status (snd (draft_clause c3_env_strict c3_world_draft))
       = (CheckMark, ''Clause inserted (tracked if enabled)'')
   \<and> journal (doc (snd (draft_clause c3_env_strict c3_world_draft))) =
       [GetSelection, InsertText SelectionRange (Some ''one'') Replace, Sync]"
proof -
  let ?e = c3_env_strict
  let ?resp = "\<lparr>detail = None, operations = Some c3_ops\<rparr>"
  let ?d1 = "\<lparr>sel_text = ''ab cd ef'', journal = [GetSelection, Load SelectionRange ''text'', Sync]\<rparr>"
  have h: "word ?e = c3_host" and f: "fetch ?e = c3_fetch"
    by (simp_all add: c3_env_strict_def)
  have ops: "c3_ops = [c3_ops ! 0, c3_ops ! Suc 0]"
    by (simp add: c3_ops_def)
  have rd: "read_selection (word ?e) (doc c3_world) = (Inr ''ab cd ef'', ?d1)"
    by (simp add: h c3_read_selection c3_world_def)
  have t: "trim ''ab cd ef'' \<noteq> []"
    by (simp add: trim_examples)
  have all: "all_succeed (word ?e) c3_ops d" for d
    by (subst ops) (simp add: h c3_operations)
  have fold: "fold (\<lambda>op d. snd (applyOperationToWord c3_host op d)) c3_ops d =
      d\<lparr>journal := journal d @
        [GetSelection, InsertText SelectionRange (Some ''one'') Replace, Sync,
         GetSelection, InsertText SelectionRange (Some ''two'') After, Sync]\<rparr>" for d
    by (subst ops) (simp add: c3_operations)
  have two: "string_of_nat 2 = ''2''"
    by code_simp
  have "length c3_ops = 2"
    by (simp add: c3_ops_def)
  with two have n: "string_of_nat (length c3_ops) = ''2''"
    by (simp only:)
  have ne: "c3_ops \<noteq> []"
    by (simp add: c3_ops_def)
  have first: "Some c3_ops = Some (c3_ops ! 0 # [c3_ops ! Suc 0])"
    by (simp add: c3_ops_def)
  \<comment> \<open>the proofread flow\<close>
  let ?p1 = "c3_world\<lparr>status := (NoSign, ''Proofreading selection (calling API)...''), doc := ?d1\<rparr>"
  let ?p2 = "?p1\<lparr>sent := sent ?p1 @ [build_request ?e ''/api/v1/word/proofread''
          \<lparr>req_method = Some ''POST'', req_headers = [(''Content-Type'', ''application/json'')],
           req_body = Some (ProofreadBody ''ab cd ef'')\<rparr> ?p1]\<rparr>"
  have papi: "proofreadSelection ?e ''ab cd ef'' ?p1 = (Inr ?resp, ?p2)"
    unfolding proofreadSelection_def by (simp only: c3_api[OF f])
  have rops: "operations ?resp = Some c3_ops"
    by simp
  have rfirst: "operations ?resp = Some (c3_ops ! 0 # [c3_ops ! Suc 0])"
    using first by simp
  note batch = C3_batch_in_order[of ?e c3_ops c3_world]
  note draft = C3_batch_in_order[of ?e c3_ops c3_world_draft]
  have pr: "proofread ?e c3_world =
      (Inr (), ?p2\<lparr>status := (CheckMark, ''Added '' @ string_of_nat (length c3_ops) @ '' comments''),
                  doc := fold (\<lambda>op d. snd (applyOperationToWord (word ?e) op d)) c3_ops (doc ?p2)\<rparr>)"
    by (rule batch[THEN conjunct2, THEN conjunct1, rule_format])
      (intro conjI, rule rd, rule t, rule papi, rule rops, rule ne, rule all)
  \<comment> \<open>the improve-writing flow\<close>
  let ?i1 = "c3_world\<lparr>status := (NoSign, ''Improving writing (calling API)...''), doc := ?d1\<rparr>"
  let ?i2 = "?i1\<lparr>sent := sent ?i1 @ [build_request ?e ''/api/v1/word/improve-writing''
          \<lparr>req_method = Some ''POST'', req_headers = [(''Content-Type'', ''application/json'')],
           req_body = Some (ImproveWritingBody ''ab cd ef''
                              (or_undefined (improveInstructions c3_world)))\<rparr> ?i1]\<rparr>"
  have iapi: "improveWriting ?e ''ab cd ef'' (or_undefined (improveInstructions c3_world)) ?i1
      = (Inr ?resp, ?i2)"
    unfolding improveWriting_def by (simp only: c3_api[OF f])
  have iw: "runImproveWriting ?e c3_world =
      (Inr (), case applyOperationToWord (word ?e) (c3_ops ! 0) (doc ?i2) of
         (Inl m, d) \<Rightarrow> ?i2\<lparr>status := (CrossMark, ''Improve writing failed: '' @ m), doc := d\<rparr>
       | (Inr u, d) \<Rightarrow>
           ?i2\<lparr>status := (CheckMark, ''Improve writing applied (tracked if enabled)''), doc := d\<rparr>)"
    by (rule batch[THEN conjunct2, THEN conjunct2, THEN conjunct2, THEN conjunct1, rule_format])
      (intro conjI, rule rd, rule t, rule iapi, rule rfirst)
  \<comment> \<open>the draft-clause flow\<close>
  let ?c1 = "c3_world_draft\<lparr>status := (NoSign, ''Drafting clause (calling API)...''),
       doc := doc c3_world_draft\<rparr>"
  let ?c2 = "?c1\<lparr>sent := sent ?c1 @ [build_request ?e ''/api/v1/word/draft-clause''
          \<lparr>req_method = Some ''POST'', req_headers = [(''Content-Type'', ''application/json'')],
           req_body = Some (DraftClauseBody (clauseRequest c3_world_draft) (or_undefined (trim []))
                              (or_undefined (clauseStyle c3_world_draft)))\<rparr> ?c1]\<rparr>"
  have ctx: "if useSelectionAsContext c3_world_draft
      then read_selection (word ?e) (doc c3_world_draft) = (Inr [], doc c3_world_draft)
      else [] = [] \<and> doc c3_world_draft = doc c3_world_draft"
    by (simp add: c3_world_draft_def)
  have "trim ''confidentiality'' = ''confidentiality''"
    by code_simp
  then have cr: "trim (clauseRequest c3_world_draft) \<noteq> []"
    by (simp add: c3_world_draft_def)
  have capi: "draftClause ?e (clauseRequest c3_world_draft) (or_undefined (trim []))
      (or_undefined (clauseStyle c3_world_draft)) ?c1 = (Inr ?resp, ?c2)"
    unfolding draftClause_def by (simp only: c3_api[OF f])
  have dc: "draft_clause ?e c3_world_draft =
      (Inr (), case applyOperationToWord (word ?e) (c3_ops ! 0) (doc ?c2) of
         (Inl m, d) \<Rightarrow> ?c2\<lparr>status := (CrossMark, ''Draft clause failed: '' @ m), doc := d\<rparr>
       | (Inr u, d) \<Rightarrow>
           ?c2\<lparr>status := (CheckMark, ''Clause inserted (tracked if enabled)''), doc := d\<rparr>)"
    by (rule draft[THEN conjunct2, THEN conjunct2, THEN conjunct2, THEN conjunct2, THEN conjunct1,
          rule_format])
      (intro conjI, rule ctx, rule cr, rule capi, rule rfirst)
  show ?thesis
    unfolding pr iw dc
    by (simp add: n fold h c3_operations c3_world_def c3_world_draft_def)
qed

theorem C3_counterexample:
  "first_operation \<lparr>detail = None, operations = Some c3_ops\<rparr> = Some (hd c3_ops)
   \<and> length c3_ops = 2
   \<and> status (snd (runImproveWriting c3_env c3_world))
       = (CheckMark, ''Improve writing applied (tracked if enabled)'')
   \<and> journal (doc (snd (runImproveWriting c3_env c3_world))) =
       [GetSelection, Load SelectionRange ''text'', Sync,
        SetTrackRevisions True, GetSelection, InsertText SelectionRange (Some ''one'') Replace, Sync]"
proof -
  have api: "improveWriting c3_env t i w =
     (Inr \<lparr>detail = None, operations = Some c3_ops\<rparr>,
      w\<lparr>sent := sent w @ [build_request c3_env ''/api/v1/word/improve-writing''
          \<lparr>req_method = Some ''POST'', req_headers = [(''Content-Type'', ''application/json'')],
           req_body = Some (ImproveWritingBody t i)\<rparr> w]\<rparr>)" for t i w
    by (simp add: improveWriting_def apiRequest_def Let_def c3_env_def c3_fetch_def res_ok_def)
  have first: "first_operation \<lparr>detail = None, operations = Some c3_ops\<rparr> = Some (hd c3_ops)"
    by (simp add: first_operation_def c3_ops_def)
  have one: "applyOperationToWord accept_all (hd c3_ops) d =
      (Inr (), d\<lparr>journal := journal d @
         [SetTrackRevisions True, GetSelection, InsertText SelectionRange (Some ''one'') Replace, Sync]\<rparr>)"
    for d
    by (simp add: c3_ops_def applyOperationToWord_def document_getSelection_def
        insert_comment_def io_defs host_call_accept)
  have w: "word c3_env = accept_all"
    by (simp add: c3_env_def)
  have run: "snd (runImproveWriting c3_env c3_world) =
      c3_world\<lparr>status := (CheckMark, ''Improve writing applied (tracked if enabled)''),
        doc := \<lparr>sel_text = ''ab cd ef'', journal =
          [GetSelection, Load SelectionRange ''text'', Sync,
           SetTrackRevisions True, GetSelection, InsertText SelectionRange (Some ''one'') Replace, Sync]\<rparr>,
        sent := [build_request c3_env ''/api/v1/word/improve-writing''
          \<lparr>req_method = Some ''POST'', req_headers = [(''Content-Type'', ''application/json'')],
           req_body = Some (ImproveWritingBody ''ab cd ef'' (Some ''make more formal''))\<rparr>
          (c3_world\<lparr>status := (NoSign, ''Improving writing (calling API)...''),
             doc := \<lparr>sel_text = ''ab cd ef'',
                      journal = [GetSelection, Load SelectionRange ''text'', Sync]\<rparr>\<rparr>)]\<rparr>"
    by (simp add: runImproveWriting_def io_bind_def io_catch_def Word_run_def setStatus_def
        w read_selection_accept api first one trim_examples or_undefined_def c3_world_def)
  have len: "length c3_ops = 2"
    by (simp add: c3_ops_def)
  show ?thesis
    using first len by (simp add: run)
qed






text \<open>
  C6 (as amended). A \<open>comment_on_quote\<close> operation first trims its quote of leading and
  trailing white space. When the trimmed quote \<open>q\<close> is not empty, the operation
  searches the selection range, and nothing else, for \<open>q\<close> with \<open>matchCase\<close> and
  \<open>matchWholeWord\<close> both off; the range it highlights and comments is the first result.
  With the host's search as the specification describes it, that result is the least
  offset at which the selection text reads \<open>q\<close> when case is ignored, and such an
  offset is found whenever there is one. The witness is the example of the specification:
  the quote \<open>Confidentiality\<close> matches \<open>confidentiality\<close>.
\<close>

theorem C6_first_occurrence_ignoring_case:
  assumes "type op = ''comment_on_quote''"
    and "trim (or_empty (quote op)) = q" and "q \<noteq> []"
    and "opts = \<lparr>matchCase = False, matchWholeWord = False\<rparr>"
  shows "applyOperationToWord accept_all op d =
           (Inr (), d\<lparr>journal := journal d @
              [SetTrackRevisions True, GetSelection, Search SelectionRange q opts, LoadItems, Sync]
              @ (case host_search opts (sel_text d) q of
                   [] \<Rightarrow> []
                 | i # _ \<Rightarrow>
                     (if highlight op then [SetHighlightColor (Found i (length q)) ''yellow''] else [])
                     @ comment_calls (Found i (length q)) op)
              @ [Sync]\<rparr>)
         \<and> (\<forall>i rest. host_search opts (sel_text d) q = i # rest \<longrightarrow>
               map to_lower (take (length q) (drop i (sel_text d))) = map to_lower q
               \<and> (\<forall>j < i. map to_lower (take (length q) (drop j (sel_text d))) \<noteq> map to_lower q))
         \<and> (\<forall>j. map to_lower (take (length q) (drop j (sel_text d))) = map to_lower q \<longrightarrow>
               host_search opts (sel_text d) q \<noteq> [])"
proof -
  have run: "applyOperationToWord accept_all op d =
           (Inr (), d\<lparr>journal := journal d @
              [SetTrackRevisions True, GetSelection, Search SelectionRange q opts, LoadItems, Sync]
              @ (case host_search opts (sel_text d) q of
                   [] \<Rightarrow> []
                 | i # _ \<Rightarrow>
                     (if highlight op then [SetHighlightColor (Found i (length q)) ''yellow''] else [])
                     @ comment_calls (Found i (length q)) op)
              @ [Sync]\<rparr>)"
    using assms(2,3,4) by (simp add: apply_comment_on_quote_accept[OF assms(1)] Let_def)
  have first: "map to_lower (take (length q) (drop i (sel_text d))) = map to_lower q
      \<and> (\<forall>j < i. map to_lower (take (length q) (drop j (sel_text d))) \<noteq> map to_lower q)"
    if "host_search opts (sel_text d) q = i # rest" for i rest
    using host_search_first that assms(4) by blast
  have found: "host_search opts (sel_text d) q \<noteq> []"
    if "map to_lower (take (length q) (drop j (sel_text d))) = map to_lower q" for j
    using host_search_finds[OF that assms(3)] assms(4) by simp
  from run first found show ?thesis by blast
qed

theorem C6_witness:
  "applyOperationToWord accept_all c6_op c6_doc =
     (Inr (), c6_doc\<lparr>journal :=
        [SetTrackRevisions True, GetSelection,
         Search SelectionRange ''Confidentiality'' \<lparr>matchCase = False, matchWholeWord = False\<rparr>,
         LoadItems, Sync, SetHighlightColor (Found 4 15) ''yellow'', Sync]\<rparr>)
   \<and> take 15 (drop 4 (sel_text c6_doc)) = ''confidentiality''"
proof -
  have kind: "type c6_op = ''comment_on_quote''"
    by (simp add: c6_op_def)
  have q: "trim (or_empty (quote c6_op)) = ''Confidentiality''"
    by (simp add: c6_op_def or_empty_def trim_def is_ws_def)
  have ne: "''Confidentiality'' \<noteq> []"
    by simp
  have found: "host_search \<lparr>matchCase = False, matchWholeWord = False\<rparr>
      ''The confidentiality and Confidentiality terms'' ''Confidentiality'' = [4, 24]"
    by code_simp
  show ?thesis
    using C6_first_occurrence_ignoring_case[OF kind q ne refl, of c6_doc] found
    by (simp add: c6_op_def c6_doc_def comment_calls_def)
qed

theorem C6_counterexample:
  "quote c6_padded_op = Some '' cd ''
   \<and> host_search \<lparr>matchCase = False, matchWholeWord = False\<rparr> (sel_text c6_padded_doc) '' cd '' = []
   \<and> journal (snd (applyOperationToWord accept_all c6_padded_op c6_padded_doc)) =
       [SetTrackRevisions True, GetSelection,
        Search SelectionRange ''cd'' \<lparr>matchCase = False, matchWholeWord = False\<rparr>,
        LoadItems, Sync, SetHighlightColor (Found 2 2) ''yellow'',
        InsertComment (Found 2 2) ''check'', Sync]
   \<and> quote c6_blank_op = Some '' ''
   \<and> host_search \<lparr>matchCase = False, matchWholeWord = False\<rparr> (sel_text c6_blank_doc) '' '' = [1]
   \<and> journal (snd (applyOperationToWord accept_all c6_blank_op c6_blank_doc)) =
       [SetTrackRevisions True, GetSelection, Sync]"
proof -
  have k: "type c6_padded_op = ''comment_on_quote''" "type c6_blank_op = ''comment_on_quote''"
    by (simp_all add: c6_padded_op_def c6_blank_op_def)
  have q: "trim (or_empty (quote c6_padded_op)) = ''cd''" "trim (or_empty (quote c6_blank_op)) = []"
    by (simp_all add: c6_padded_op_def c6_blank_op_def or_empty_def trim_def is_ws_def)
  have padded: "host_search \<lparr>matchCase = False, matchWholeWord = False\<rparr> ''abcdef'' '' cd '' = []"
    by code_simp
  have trimmed: "host_search \<lparr>matchCase = False, matchWholeWord = False\<rparr> ''abcdef'' ''cd'' = [2]"
    by code_simp
  have blank: "host_search \<lparr>matchCase = False, matchWholeWord = False\<rparr> ''a b'' '' '' = [1]"
    by code_simp
  have hl: "highlight c6_padded_op"
    by (simp add: c6_padded_op_def)
  have cm: "comment_calls r c6_padded_op = [InsertComment r ''check'']" for r
    by (simp add: comment_calls_def c6_padded_op_def)
  have j1: "journal (snd (applyOperationToWord accept_all c6_padded_op c6_padded_doc)) =
       [SetTrackRevisions True, GetSelection,
        Search SelectionRange ''cd'' \<lparr>matchCase = False, matchWholeWord = False\<rparr>,
        LoadItems, Sync, SetHighlightColor (Found 2 2) ''yellow'',
        InsertComment (Found 2 2) ''check'', Sync]"
    unfolding apply_comment_on_quote_accept[OF k(1)]
    by (simp add: q hl cm trimmed c6_padded_doc_def)
  have j2: "journal (snd (applyOperationToWord accept_all c6_blank_op c6_blank_doc)) =
       [SetTrackRevisions True, GetSelection, Sync]"
    unfolding apply_comment_on_quote_accept[OF k(2)]
    by (simp add: q c6_blank_doc_def)
  have q1: "quote c6_padded_op = Some '' cd ''" and q2: "quote c6_blank_op = Some '' ''"
    by (simp_all add: c6_padded_op_def c6_blank_op_def)
  show ?thesis
    using q1 q2 j1 j2 padded blank
    by (simp add: c6_padded_doc_def c6_blank_doc_def)
qed

text \<open>
  C7. For a \<open>comment_on_quote\<close> operation whose quote is matched and whose comment has
  a body (a non-empty string), the comment attached to the first match reads
  \<open>title: body\<close> when the comment has a title (a string that is neither null nor empty),
  and the body alone otherwise. The witness is the example of the specification: the
  comment \<open>Confirm duration\<close> on the match of \<open>12 months\<close>.
\<close>

theorem C7_comment_text:
  assumes "type op = ''comment_on_quote''"
    and "trim (or_empty (quote op)) = q" and "q \<noteq> []"
    and "host_search \<lparr>matchCase = False, matchWholeWord = False\<rparr> (sel_text d) q = i # rest"
    and "comment op = Some c" and "body c \<noteq> []"
  shows "applyOperationToWord accept_all op d =
           (Inr (), d\<lparr>journal := journal d @
              [SetTrackRevisions True, GetSelection,
               Search SelectionRange q \<lparr>matchCase = False, matchWholeWord = False\<rparr>, LoadItems, Sync]
              @ (if highlight op then [SetHighlightColor (Found i (length q)) ''yellow''] else [])
              @ [InsertComment (Found i (length q))
                   (case title c of
                      None \<Rightarrow> body c
                    | Some t \<Rightarrow> if t = [] then body c else t @ '': '' @ body c),
                 Sync]\<rparr>)"
  using assms(2-)
  by (simp add: apply_comment_on_quote_accept[OF assms(1)] Let_def comment_calls_def)

theorem C7_witness:
  "applyOperationToWord accept_all c7_op c7_doc =
     (Inr (), c7_doc\<lparr>journal :=
        [SetTrackRevisions True, GetSelection,
         Search SelectionRange ''12 months'' \<lparr>matchCase = False, matchWholeWord = False\<rparr>,
         LoadItems, Sync, InsertComment (Found 30 9) ''Confirm duration'', Sync]\<rparr>)
   \<and> take 9 (drop 30 (sel_text c7_doc)) = ''12 months''"
proof -
  have kind: "type c7_op = ''comment_on_quote''"
    by (simp add: c7_op_def)
  have q: "trim (or_empty (quote c7_op)) = ''12 months''"
    by (simp add: c7_op_def or_empty_def trim_def is_ws_def)
  have ne: "''12 months'' \<noteq> []"
    by simp
  have found: "host_search \<lparr>matchCase = False, matchWholeWord = False\<rparr> (sel_text c7_doc) ''12 months''
      = 30 # []"
    by code_simp
  have c: "comment c7_op = Some \<lparr>title = None, body = ''Confirm duration''\<rparr>"
    by (simp add: c7_op_def)
  have b: "body \<lparr>title = None, body = ''Confirm duration''\<rparr> \<noteq> []"
    by simp
  show ?thesis
    using C7_comment_text[OF kind q ne found c b]
    by (simp add: c7_op_def c7_doc_def)
qed

text \<open>
  C8 (as amended). When \<open>saveToken t\<close> resolves, \<open>getToken\<close> returns \<open>t\<close> if \<open>t\<close> is
  not the empty string, and null if it is; when \<open>clearToken\<close> resolves, \<open>getToken\<close>
  returns null.
\<close>

theorem C8_token_round_trip:
  "(fst (saveToken off t r) = Inr () \<longrightarrow>
      getToken off (snd (saveToken off t r)) = (if t = [] then None else Some t))
   \<and> (fst (clearToken off r) = Inr () \<longrightarrow> getToken off (snd (clearToken off r)) = None)"
  by (auto simp: saveToken_def clearToken_def getToken_def saveAsync_def or_null_def truthy_def
      split: option.splits)

theorem C8_witness:
  "fst (saveToken c8_office ''eyJhbGciOiJIUzI1NiJ9'' c8_settings) = Inr ()
   \<and> getToken c8_office (snd (saveToken c8_office ''eyJhbGciOiJIUzI1NiJ9'' c8_settings))
       = Some ''eyJhbGciOiJIUzI1NiJ9''
   \<and> fst (clearToken c8_office (snd (saveToken c8_office ''eyJhbGciOiJIUzI1NiJ9'' c8_settings))) = Inr ()
   \<and> getToken c8_office
        (snd (clearToken c8_office (snd (saveToken c8_office ''eyJhbGciOiJIUzI1NiJ9'' c8_settings))))
       = None"
proof -
  have s: "fst (saveToken c8_office ''eyJhbGciOiJIUzI1NiJ9'' c8_settings) = Inr ()"
    by (simp add: saveToken_def saveAsync_def c8_office_def)
  have c: "fst (clearToken c8_office (snd (saveToken c8_office ''eyJhbGciOiJIUzI1NiJ9'' c8_settings))) = Inr ()"
    by (simp add: clearToken_def saveAsync_def c8_office_def)
  show ?thesis
    using s c
      C8_token_round_trip[of c8_office "''eyJhbGciOiJIUzI1NiJ9''" c8_settings]
      C8_token_round_trip[of c8_office "''eyJhbGciOiJIUzI1NiJ9''"
        "snd (saveToken c8_office ''eyJhbGciOiJIUzI1NiJ9'' c8_settings)"]
    by simp
qed

theorem C8_counterexample:
  "fst (saveToken c8_office [] c8_settings) = Inr ()
   \<and> getToken c8_office (snd (saveToken c8_office [] c8_settings)) = None
   \<and> getToken c8_office (snd (saveToken c8_office [] c8_settings)) \<noteq> Some []"
  by (simp add: saveToken_def saveAsync_def getToken_def c8_office_def c8_settings_def
      or_null_def truthy_def)

text \<open>
  C9 (as amended). Reading the selection returns its text as it is, the empty string
  included. In the improve-writing and proofread flows, when the selection read is empty
  or only white space, no request is sent, whatever the host does, and the status line
  shows the warning \<open>Please select some text first\<close> (when the host accepts the read).
  The draft-clause flow, which sends the selection as optional context, still sends its
  request when the selection is empty, without \<open>context_text\<close>.
\<close>

theorem C9_selection_read_and_guard:
  "(\<forall>t d'. read_selection (word e) (doc w) = (Inr t, d') \<longrightarrow> t = sel_text (doc w))
   \<and> (word e = accept_all \<longrightarrow>
        selection (snd (getSelection e w)) = sel_text (doc w)
        \<and> status (snd (getSelection e w)) = (CheckMark, ''Selection loaded''))
   \<and> (trim (sel_text (doc w)) = [] \<longrightarrow>
        sent (snd (runImproveWriting e w)) = sent w
        \<and> sent (snd (proofread e w)) = sent w
        \<and> (word e = accept_all \<longrightarrow>
             status (snd (runImproveWriting e w)) = (WarningSign, ''Please select some text first'')
             \<and> status (snd (proofread e w)) = (WarningSign, ''Please select some text first'')
             \<and> (useSelectionAsContext w \<and> trim (clauseRequest w) \<noteq> [] \<longrightarrow>
                  sent (snd (draft_clause e w)) =
                    sent w @ [build_request e ''/api/v1/word/draft-clause''
                      \<lparr>req_method = Some ''POST'',
                       req_headers = [(''Content-Type'', ''application/json'')],
                       req_body = Some (DraftClauseBody (clauseRequest w) None
                                          (or_undefined (clauseStyle w)))\<rparr> w])))"
proof -
  have verbatim: "\<forall>t d'. read_selection (word e) (doc w) = (Inr t, d') \<longrightarrow> t = sel_text (doc w)"
    using read_selection_verbatim by blast
  have panel: "selection (snd (getSelection e w)) = sel_text (doc w)
      \<and> status (snd (getSelection e w)) = (CheckMark, ''Selection loaded'')"
    if "word e = accept_all"
    using that
    by (simp add: getSelection_def io_bind_def io_catch_def Word_run_def setStatus_def
        setSelection_def read_selection_accept)
  have none_sent: "sent (snd (runImproveWriting e w)) = sent w \<and> sent (snd (proofread e w)) = sent w"
    if "trim (sel_text (doc w)) = []"
    unfolding runImproveWriting_blank[OF that] proofread_blank[OF that]
    by (simp split: prod.splits sum.splits)
  have warned: "status (snd (runImproveWriting e w)) = (WarningSign, ''Please select some text first'')
      \<and> status (snd (proofread e w)) = (WarningSign, ''Please select some text first'')"
    if "trim (sel_text (doc w)) = []" and "word e = accept_all"
    unfolding runImproveWriting_blank[OF that(1)] proofread_blank[OF that(1)]
    by (simp add: that(2) read_selection_accept)
  show ?thesis
    using verbatim panel none_sent warned draft_clause_blank by blast
qed

theorem C9_witness:
  "selection (snd (getSelection c9_env (c9_world ''  two  words ''))) = ''  two  words ''
   \<and> sent (snd (runImproveWriting c9_env (c9_world []))) = []
   \<and> sent (snd (proofread c9_env (c9_world []))) = []
   \<and> status (snd (runImproveWriting c9_env (c9_world []))) = (WarningSign, ''Please select some text first'')
   \<and> status (snd (proofread c9_env (c9_world []))) = (WarningSign, ''Please select some text first'')
   \<and> length (sent (snd (draft_clause c9_env (c9_world [])))) = 1"
proof -
  have h: "word c9_env = accept_all"
    by (simp add: c9_env_def)
  have blank: "trim (sel_text (doc (c9_world []))) = []"
    by (simp add: c9_world_def trim_Nil)
  have ctx: "useSelectionAsContext (c9_world [])"
    by (simp add: c9_world_def)
  have "trim ''limitation of liability'' = ''limitation of liability''"
    by code_simp
  then have req: "trim (clauseRequest (c9_world [])) \<noteq> []"
    by (simp add: c9_world_def)
  show ?thesis
    using C9_selection_read_and_guard[of c9_env "c9_world ''  two  words ''"]
      C9_selection_read_and_guard[of c9_env "c9_world []"] h blank ctx req
    by (simp add: c9_world_def)
qed

theorem C9_counterexample:
  "sel_text (doc (c9_world [])) = []
   \<and> sent (snd (draft_clause c9_env (c9_world []))) =
       [\<lparr>url = ''http://localhost:8001/api/v1/word/draft-clause'',
         init = \<lparr>req_method = Some ''POST'',
                 req_headers = [(''Content-Type'', ''application/json'')],
                 req_body = Some (DraftClauseBody ''limitation of liability'' None
                                    (Some ''US English, formal, concise''))\<rparr>\<rparr>]"
proof -
  have t: "trim ''limitation of liability'' = ''limitation of liability''"
    by code_simp
  show ?thesis
    by (simp add: draft_clause_def draftClause_def apiRequest_def build_request_def Let_def
        io_bind_def io_catch_def io_return_def Word_run_def setStatus_def read_selection_accept
        or_undefined_def c9_env_def c9_world_def c9_fetch_def c9_office_def getToken_def
        or_null_def truthy_def res_ok_def first_operation_def API_BASE_URL_def t trim_Nil)
qed

text \<open>
  C10. An operation whose kind is none of the four known kinds inserts or replaces no
  text, whatever the host does, and throws only what the host threw; against a host that
  accepts every call it succeeds, attaches its comment, when the comment has a body, to
  the whole selection range, and ends with the host synchronisation.
\<close>

theorem C10_unknown_kind:
  assumes "type op \<notin> {''replace_selection'', ''insert_after_selection'', ''insert_before_selection'',
                       ''comment_on_quote''}"
  shows "applyOperationToWord accept_all op d =
           (Inr (), d\<lparr>journal := journal d @ [SetTrackRevisions True, GetSelection]
              @ (case comment op of
                   None \<Rightarrow> []
                 | Some c \<Rightarrow>
                     if body c = [] then []
                     else [InsertComment SelectionRange
                             (case title c of
                                None \<Rightarrow> body c
                              | Some t \<Rightarrow> if t = [] then body c else t @ '': '' @ body c)])
              @ [Sync]\<rparr>)
         \<and> (\<forall>h. sel_text (snd (applyOperationToWord h op d)) = sel_text d
               \<and> (\<exists>new. journal (snd (applyOperationToWord h op d)) = journal d @ new
                        \<and> list_all (\<lambda>c. \<forall>r x l. c \<noteq> InsertText r x l) new)
               \<and> (\<forall>m. fst (applyOperationToWord h op d) = Inl m \<longrightarrow> (\<exists>l c. h l c = Some m)))"
proof -
  have any: "sel_text (snd (applyOperationToWord h op d)) = sel_text d
      \<and> (\<exists>new. journal (snd (applyOperationToWord h op d)) = journal d @ new
               \<and> list_all (\<lambda>c. \<forall>r x l. c \<noteq> InsertText r x l) new)
      \<and> (\<forall>m. fst (applyOperationToWord h op d) = Inl m \<longrightarrow> (\<exists>l c. h l c = Some m))" for h
  proof -
    note r = apply_runs_other[OF assms, of h]
    show ?thesis
      using runs_sel_text[OF r refl] runs_journal[OF r refl] runs_error[OF r refl] by blast
  qed
  then show ?thesis
    using apply_other_accept[OF assms, of d] by (simp add: comment_calls_def)
qed

theorem C10_witness:
  "applyOperationToWord accept_all c10_op c10_doc =
     (Inr (), c10_doc\<lparr>journal := [SetTrackRevisions True, GetSelection,
        InsertComment SelectionRange ''Risk: Unbounded liability'', Sync]\<rparr>)"
proof -
  have kind: "type c10_op \<notin> {''replace_selection'', ''insert_after_selection'',
      ''insert_before_selection'', ''comment_on_quote''}"
    by (simp add: c10_op_def)
  show ?thesis
    using C10_unknown_kind[OF kind, of c10_doc]
    by (simp add: c10_op_def c10_doc_def)
qed

end
